theory Spec2Isabelle
  imports Main
begin

section \<open>JavaScript strings\<close>

text \<open>
  A JavaScript string is a sequence of UTF-16 code units. The model uses \<^typ>\<open>string\<close>, whose
  characters are the code units \<open>0x00\<close> to \<open>0xFF\<close>: every statement below is about the strings
  of that range (ASCII and Latin-1). In that range the white space of \<open>String.prototype.trim\<close>
  and of the regular expression class \<open>\s\<close> is TAB, LF, VT, FF, CR, SPACE and NBSP, and the
  line terminators that \<open>.\<close> refuses are LF and CR.
\<close>

definition isWhiteSpace :: "char \<Rightarrow> bool" where
  "isWhiteSpace c =
     (c \<in> {CHR 0x09, CHR 0x0A, CHR 0x0B, CHR 0x0C, CHR 0x0D, CHR 0x20, CHR 0xA0})"

definition isLineTerminator :: "char \<Rightarrow> bool" where
  "isLineTerminator c = (c \<in> {CHR 0x0A, CHR 0x0D})"

text \<open>\<open>\w\<close> is \<open>[A-Za-z0-9_]\<close>; \<open>[\w.-]\<close> adds the dot and the hyphen.\<close>

definition isWordChar :: "char \<Rightarrow> bool" where
  "isWordChar c =
     (c \<in> set ''abcdefghijklmnopqrstuvwxyzABCDEFGHIJKLMNOPQRSTUVWXYZ0123456789_'')"

definition isScopeChar :: "char \<Rightarrow> bool" where
  "isScopeChar c = (isWordChar c \<or> c = CHR ''.'' \<or> c = CHR ''-'')"

definition isDotChar :: "char \<Rightarrow> bool" where
  "isDotChar c = (\<not> isLineTerminator c)"

text \<open>\<open>s.trim()\<close>, \<open>s.startsWith(p)\<close>, \<open>s.includes(p)\<close>.\<close>

definition trimStart :: "string \<Rightarrow> string" where
  "trimStart s = dropWhile isWhiteSpace s"

definition trimEnd :: "string \<Rightarrow> string" where
  "trimEnd s = rev (dropWhile isWhiteSpace (rev s))"

definition trim :: "string \<Rightarrow> string" where
  "trim s = trimEnd (trimStart s)"

definition startsWith :: "string \<Rightarrow> string \<Rightarrow> bool" where
  "startsWith s p = (take (length p) s = p)"

fun includes_str :: "string \<Rightarrow> string \<Rightarrow> bool" where
  "includes_str [] p = (p = [])"
| "includes_str (c # cs) p = (startsWith (c # cs) p \<or> includes_str cs p)"

text \<open>
  \<open>s.split("\n")\<close>: the pieces between the separators, at least one piece (the split of the
  empty string is the list holding the empty string). The second branch of the \<open>case\<close> is
  never taken, since the result is never empty.
\<close>

fun split :: "char \<Rightarrow> string \<Rightarrow> string list" where
  "split sep [] = [[]]"
| "split sep (c # cs) =
     (if c = sep then [] # split sep cs
      else (case split sep cs of l # ls \<Rightarrow> (c # l) # ls | [] \<Rightarrow> [[c]]))"

text \<open>\<open>lines.join("\n")\<close>.\<close>

fun join :: "string \<Rightarrow> string list \<Rightarrow> string" where
  "join sep [] = []"
| "join sep [l] = l"
| "join sep (l # m # ls) = l @ sep @ join sep (m # ls)"

text \<open>The double quote and the single quote, for the texts that hold them.\<close>

definition DQ :: string where
  "DQ = [CHR 0x22]"

definition SQ :: string where
  "SQ = [CHR 0x27]"

section \<open>The header regular expression\<close>

text \<open>
  The pattern of \<open>CONVENTIONAL_COMMIT_HEADER_REGEX\<close> is
  \<^verbatim>\<open>^(\w+)(?:\(([\w.-]+)\))?(!)?:\s(.+)$\<close>.
  Its syntax tree uses the constructs below; \<open>+\<close> is applied to character classes only. The
  matcher is the backtracking one of the language: \<open>rx_run r (caps, s)\<close> lists, in the order
  in which backtracking tries them, the capture assignments and the rests of the input after
  a match of \<open>r\<close> at the front of \<open>s\<close>. A greedy \<open>+\<close> tries the longest run first, a greedy
  \<open>?\<close> tries its body before skipping it, and a group stores the text its body consumed.
\<close>

datatype rx =
    Chr char
  | Cls "char \<Rightarrow> bool"
  | PlusCls "char \<Rightarrow> bool"
  | Seq rx rx
  | Opt rx
  | Grp nat rx

type_synonym captures = "nat \<Rightarrow> string option"

primrec rx_run :: "rx \<Rightarrow> captures \<times> string \<Rightarrow> (captures \<times> string) list" where
  "rx_run (Chr c) st =
     (case snd st of [] \<Rightarrow> [] | x # xs \<Rightarrow> if x = c then [(fst st, xs)] else [])"
| "rx_run (Cls p) st =
     (case snd st of [] \<Rightarrow> [] | x # xs \<Rightarrow> if p x then [(fst st, xs)] else [])"
| "rx_run (PlusCls p) st =
     map (\<lambda>i. (fst st, drop i (snd st))) (rev [1 ..< Suc (length (takeWhile p (snd st)))])"
| "rx_run (Seq a b) st = concat (map (rx_run b) (rx_run a st))"
| "rx_run (Opt a) st = rx_run a st @ [st]"
| "rx_run (Grp n a) st =
     map (\<lambda>(caps, rest). (caps(n \<mapsto> take (length (snd st) - length rest) (snd st)), rest))
       (rx_run a st)"

definition CONVENTIONAL_COMMIT_HEADER_REGEX :: rx where
  "CONVENTIONAL_COMMIT_HEADER_REGEX =
     Seq (Grp 1 (PlusCls isWordChar))
    (Seq (Opt (Seq (Chr (CHR ''('')) (Seq (Grp 2 (PlusCls isScopeChar)) (Chr (CHR '')'')))))
    (Seq (Opt (Grp 3 (Chr (CHR ''!''))))
    (Seq (Chr (CHR '':''))
    (Seq (Cls isWhiteSpace)
         (Grp 4 (PlusCls isDotChar))))))"

text \<open>
  \<open>header.match(regex)\<close> for a pattern between \<open>^\<close> and \<open>$\<close> without flags: the match starts
  at the first character and must use the whole input; the first successful alternative
  gives the array \<open>[whole match, group 1, ..., group 4]\<close>, a group that did not take part
  being \<open>undefined\<close> (\<open>None\<close>); no match gives \<open>null\<close> (\<open>None\<close>).
\<close>

definition js_match :: "string \<Rightarrow> rx \<Rightarrow> string option list option" where
  "js_match s r =
     (case filter (\<lambda>(caps, rest). rest = []) (rx_run r (Map.empty, s)) of
        [] \<Rightarrow> None
      | (caps, rest) # more \<Rightarrow> Some [Some s, caps 1, caps 2, caps 3, caps 4])"

section \<open>The header validator\<close>

definition CONVENTIONAL_COMMIT_TYPES :: "string list" where
  "CONVENTIONAL_COMMIT_TYPES =
     [''feat'', ''fix'', ''build'', ''chore'', ''ci'', ''docs'', ''style'', ''refactor'',
      ''perf'', ''test'']"

text \<open>
  The validator returns an object literal: \<open>{ isValid: true }\<close> or
  \<open>{ isValid: false, error: "..." }\<close>. An object is the list of its properties, read with
  \<open>get_prop\<close>; a property that the literal does not set reads as \<open>undefined\<close> (\<open>None\<close>).
\<close>

datatype jsval = JBool bool | JStr string

type_synonym jsobject = "(string \<times> jsval) list"

definition get_prop :: "jsobject \<Rightarrow> string \<Rightarrow> jsval option" where
  "get_prop obj name = map_of obj name"

definition isValid :: "jsobject \<Rightarrow> bool" where
  "isValid obj = (get_prop obj ''isValid'' = Some (JBool True))"

definition error :: "jsobject \<Rightarrow> string option" where
  "error obj = (case get_prop obj ''error'' of Some (JStr e) \<Rightarrow> Some e | _ \<Rightarrow> None)"

text \<open>The header: \<open>message.split("\n")[0].trim()\<close>.\<close>

definition header_of :: "string \<Rightarrow> string" where
  "header_of message = trim (split (CHR 0x0A) message ! 0)"

text \<open>A template literal prints an \<open>undefined\<close> value as the word \<open>undefined\<close>.\<close>

definition show_str :: "string option \<Rightarrow> string" where
  "show_str v = (case v of None \<Rightarrow> ''undefined'' | Some s \<Rightarrow> s)"

definition validateConventionalCommitHeader :: "string \<Rightarrow> jsobject" where
  "validateConventionalCommitHeader message =
     (let header = header_of message in
      if header = [] then
        [(''isValid'', JBool False), (''error'', JStr ''Commit message header cannot be empty.'')]
      else
        (case js_match header CONVENTIONAL_COMMIT_HEADER_REGEX of
           None \<Rightarrow>
             [(''isValid'', JBool False),
              (''error'', JStr (''Invalid header format. Expected '' @
                 SQ @ ''<type>(<scope>): <description>'' @ SQ @ '' or '' @
                 SQ @ ''<type>!: <description>'' @ SQ @ '' or '' @
                 SQ @ ''<type>(<scope>)!: <description>'' @ SQ @ ''.''))]
         | Some groups \<Rightarrow>
             (let type = groups ! 1; description = groups ! 4 in
              if \<not> (case type of None \<Rightarrow> False | Some t \<Rightarrow> t \<in> set CONVENTIONAL_COMMIT_TYPES)
              then
                [(''isValid'', JBool False),
                 (''error'', JStr (''Invalid type '' @ SQ @ show_str type @ SQ @
                    ''. Must be one of: '' @ join '', '' CONVENTIONAL_COMMIT_TYPES @ ''.''))]
              else if description = None \<or> description = Some [] then
                [(''isValid'', JBool False), (''error'', JStr ''Description cannot be empty.'')]
              else [(''isValid'', JBool True)])))"

section \<open>Project context, collaborators and tool results\<close>

text \<open>
  The state of \<open>StateService\<close> (the \<open>ServerState\<close> of the single-file server): the project
  path, \<open>null\<close> at the start, and the flag that the path is a Git work tree.
\<close>

record ServerState =
  projectPath :: "string option"
  isValidGitRepo :: bool

definition initial_state :: ServerState where
  "initial_state = \<lparr>projectPath = None, isValidGitRepo = False\<rparr>"

definition initializeProject :: "string \<Rightarrow> bool \<Rightarrow> ServerState \<Rightarrow> ServerState" where
  "initializeProject path isRepo st = st\<lparr>projectPath := Some path, isValidGitRepo := isRepo\<rparr>"

text \<open>
  A value thrown by a collaborator: an \<open>Error\<close> object with its \<open>message\<close> and, when set,
  its \<open>code\<close> and its \<open>stderr\<close>; or a value that is no \<open>Error\<close>, given by its \<open>String(...)\<close>
  form. The properties \<open>message\<close>, \<open>code\<close> and \<open>stderr\<close> of the latter read as \<open>undefined\<close>.
\<close>

datatype thrown = ErrorObj string "string option" "string option" | NonError string

definition err_message :: "thrown \<Rightarrow> string option" where
  "err_message e = (case e of ErrorObj m c se \<Rightarrow> Some m | NonError v \<Rightarrow> None)"

definition err_code :: "thrown \<Rightarrow> string option" where
  "err_code e = (case e of ErrorObj m c se \<Rightarrow> c | NonError v \<Rightarrow> None)"

definition err_stderr :: "thrown \<Rightarrow> string option" where
  "err_stderr e = (case e of ErrorObj m c se \<Rightarrow> se | NonError v \<Rightarrow> None)"

record exec_output =
  stdout :: string
  stderr :: string

text \<open>
  The collaborators are parameters: \<open>path.resolve\<close>, \<open>fs.stat\<close> (its result is
  \<open>stats.isDirectory()\<close>), the promisified \<open>exec\<close> with the command line and the \<open>cwd\<close>
  option, the prompt template of \<open>getCommitPrompt\<close> and \<open>String.prototype.replace\<close>
  (\<open>replace t pat by\<close> is \<open>t.replace(pat, by)\<close>). The file system and the repository are
  the world \<open>'w\<close>; \<open>exec\<close> may change it. Every call of \<open>fs.stat\<close> and of \<open>exec\<close> is
  recorded in \<open>calls\<close>.
\<close>

datatype call = Stat string | Exec string string

record 'w collaborators =
  path_resolve :: "string \<Rightarrow> thrown + string"
  fs_stat :: "string \<Rightarrow> 'w \<Rightarrow> thrown + bool"
  execPromise :: "string \<Rightarrow> string \<Rightarrow> 'w \<Rightarrow> (thrown + exec_output) \<times> 'w"
  getCommitPrompt :: string
  replace :: "string \<Rightarrow> string \<Rightarrow> string \<Rightarrow> string"

record 'w system =
  state :: ServerState
  world :: 'w
  calls :: "call list"

definition run_stat :: "'w collaborators \<Rightarrow> string \<Rightarrow> 'w system \<Rightarrow> (thrown + bool) \<times> 'w system" where
  "run_stat C path s = (fs_stat C path (world s), s\<lparr>calls := calls s @ [Stat path]\<rparr>)"

definition run_exec ::
  "'w collaborators \<Rightarrow> string \<Rightarrow> string \<Rightarrow> 'w system \<Rightarrow> (thrown + exec_output) \<times> 'w system" where
  "run_exec C command cwd s =
     (case execPromise C command cwd (world s) of
        (r, w) \<Rightarrow> (r, s\<lparr>world := w, calls := calls s @ [Exec command cwd]\<rparr>))"

text \<open>The result of a tool: text blocks and the optional error flag.\<close>

datatype content_block = Text string

record envelope =
  content :: "content_block list"
  isError :: "bool option"

definition text_result :: "string \<Rightarrow> envelope" where
  "text_result t = \<lparr>content = [Text t], isError = None\<rparr>"

definition error_result :: "string \<Rightarrow> envelope" where
  "error_result t = \<lparr>content = [Text t], isError = Some True\<rparr>"

section \<open>The diff aggregator\<close>

text \<open>
  \<open>checkGitRepo\<close>: the probe succeeds or throws. Here and in \<open>getGitDiff\<close> the parameter
  \<open>projectPath\<close> of the source is called \<open>dir\<close>.
\<close>

definition checkGitRepo :: "'w collaborators \<Rightarrow> string \<Rightarrow> 'w system \<Rightarrow> bool \<times> 'w system" where
  "checkGitRepo C dir s =
     (case run_exec C ''git rev-parse --is-inside-work-tree'' dir s of
        (Inl e, s') \<Rightarrow> (False, s')
      | (Inr out, s') \<Rightarrow> (True, s'))"

text \<open>
  The body of the \<open>try\<close> block of \<open>getGitDiff\<close> after the three awaits: \<open>diff_sections\<close> is
  the pair of \<open>result\<close> and \<open>hasChanges\<close> after the three \<open>if\<close> statements, \<open>render_diff\<close>
  the returned string.
\<close>

definition untrackedFiles_of :: "string \<Rightarrow> string list" where
  "untrackedFiles_of untrackedFilesOutput =
     filter (\<lambda>line. trim line \<noteq> []) (split (CHR 0x0A) untrackedFilesOutput)"

definition diff_sections :: "string \<Rightarrow> string \<Rightarrow> string \<Rightarrow> string \<times> bool" where
  "diff_sections stagedDiff unstagedDiff untrackedFilesOutput =
     (let untrackedFiles = untrackedFiles_of untrackedFilesOutput;
          r0 = ([], False);
          r1 = (if trim stagedDiff \<noteq> []
                then (fst r0 @ ''=== STAGED CHANGES ===\<newline>'' @ trim stagedDiff @ ''\<newline>\<newline>'', True)
                else r0);
          r2 = (if trim unstagedDiff \<noteq> []
                then (fst r1 @ ''=== UNSTAGED CHANGES ===\<newline>'' @ trim unstagedDiff @ ''\<newline>\<newline>'', True)
                else r1);
          r3 = (if length untrackedFiles > 0
                then (fst r2 @ ''=== UNTRACKED FILES ===\<newline>'' @ join ''\<newline>'' untrackedFiles @ ''\<newline>'', True)
                else r2)
      in r3)"

definition render_diff :: "string \<Rightarrow> string \<Rightarrow> string \<Rightarrow> string" where
  "render_diff stagedDiff unstagedDiff untrackedFilesOutput =
     (case diff_sections stagedDiff unstagedDiff untrackedFilesOutput of
        (result, hasChanges) \<Rightarrow> if hasChanges then trim result else ''No changes detected'')"

text \<open>The \<open>catch\<close> block of \<open>getGitDiff\<close>.\<close>

definition diff_error :: "thrown \<Rightarrow> string" where
  "diff_error e =
     (case e of
        ErrorObj m c se \<Rightarrow> ''Error retrieving git diff: '' @ m
      | NonError v \<Rightarrow> ''Error retrieving git diff: Unknown error'')"

definition getGitDiff :: "'w collaborators \<Rightarrow> string \<Rightarrow> 'w system \<Rightarrow> string \<times> 'w system" where
  "getGitDiff C dir s =
     (case run_exec C ''git diff --staged'' dir s of
        (Inl e, s1) \<Rightarrow> (diff_error e, s1)
      | (Inr staged, s1) \<Rightarrow>
          (case run_exec C ''git diff'' dir s1 of
             (Inl e, s2) \<Rightarrow> (diff_error e, s2)
           | (Inr unstaged, s2) \<Rightarrow>
               (case run_exec C ''git ls-files --others --exclude-standard'' dir s2 of
                  (Inl e, s3) \<Rightarrow> (diff_error e, s3)
                | (Inr untracked, s3) \<Rightarrow>
                    (render_diff (stdout staged) (stdout unstaged) (stdout untracked), s3))))"

text \<open>
  The three results of the data model, and the reading of the returned string that the
  callers make: \<open>generate-commit-prompt\<close> compares with the sentinel, then tests the prefix.
\<close>

datatype diff_result = Empty | Changes string | Failure string

definition classify :: "string \<Rightarrow> diff_result" where
  "classify diff =
     (if diff = ''No changes detected'' then Empty
      else if startsWith diff ''Error retrieving git diff:'' then Failure diff
      else Changes diff)"

section \<open>The tools\<close>

definition not_initialized :: envelope where
  "not_initialized = error_result
     ''Error: Project not initialized or not a valid Git repository. Please use initialize-project tool first.''"

text \<open>
  The gate \<open>!projectPath || !isValidGitRepo\<close>: \<open>!projectPath\<close> holds for \<open>null\<close> and for the
  empty string.
\<close>

definition gate_closed :: "ServerState \<Rightarrow> bool" where
  "gate_closed st \<longleftrightarrow>
     projectPath st = None \<or> projectPath st = Some [] \<or> \<not> isValidGitRepo st"

text \<open>
  \<open>get-git-diff\<close>. \<open>getGitDiff\<close> catches every exception itself, so the \<open>catch\<close> block of the
  handler is never entered.
\<close>

definition get_git_diff :: "'w collaborators \<Rightarrow> 'w system \<Rightarrow> envelope \<times> 'w system" where
  "get_git_diff C s =
     (case projectPath (state s) of
        None \<Rightarrow> (not_initialized, s)
      | Some path \<Rightarrow>
          if path = [] \<or> \<not> isValidGitRepo (state s) then (not_initialized, s)
          else (case getGitDiff C path s of
                  (diff, s') \<Rightarrow>
                    if startsWith diff ''Error retrieving git diff:'' then (error_result diff, s')
                    else (text_result diff, s')))"

text \<open>
  \<open>generate-commit-prompt\<close>; \<open>scope\<close> is optional. \<open>scope_instruction\<close> is the constant
  \<open>scopeInstruction\<close> of the handler: the test \<open>scope ? ... : ...\<close> takes the second branch
  for a missing scope and for the empty string.
\<close>

definition scope_instruction :: "string option \<Rightarrow> string" where
  "scope_instruction scope =
     (case scope of
        Some sc \<Rightarrow>
          if sc \<noteq> [] then ''Use the provided scope '' @ DQ @ sc @ DQ @ ''.''
          else ''Determine an appropriate scope based on the changes if applicable, otherwise omit the scope.''
      | None \<Rightarrow> ''Determine an appropriate scope based on the changes if applicable, otherwise omit the scope.'')"

definition generate_commit_prompt ::
  "'w collaborators \<Rightarrow> string option \<Rightarrow> 'w system \<Rightarrow> envelope \<times> 'w system" where
  "generate_commit_prompt C scope s =
     (case projectPath (state s) of
        None \<Rightarrow> (not_initialized, s)
      | Some path \<Rightarrow>
          if path = [] \<or> \<not> isValidGitRepo (state s) then (not_initialized, s)
          else (case getGitDiff C path s of
                  (diff, s') \<Rightarrow>
                    if diff = ''No changes detected'' then
                      (text_result ''No changes detected to generate a commit message prompt for.'', s')
                    else if startsWith diff ''Error retrieving git diff:'' then (error_result diff, s')
                    else
                      (let promptTemplate = getCommitPrompt C;
                           scopeInstruction = scope_instruction scope;
                           prompt = replace C (replace C promptTemplate ''{diff}'' diff)
                                      ''{scope_instruction}'' scopeInstruction
                       in (text_result prompt, s'))))"

text \<open>
  \<open>initialize-project\<close>. The inner \<open>catch\<close> receives the exception of \<open>fs.stat\<close> and also
  the \<open>Error\<close> that the handler throws itself for a path that is no directory (an error
  without \<open>code\<close>). The outer \<open>catch\<close> receives the exception of \<open>path.resolve\<close>;
  \<open>checkGitRepo\<close> and \<open>initializeProject\<close> do not throw.
\<close>

definition stat_error_text :: "string \<Rightarrow> thrown \<Rightarrow> string" where
  "stat_error_text resolvedPath e =
     (if err_code e = Some ''ENOENT'' then
        ''The path '' @ DQ @ resolvedPath @ DQ @ '' does not exist.''
      else if err_code e = Some ''ENOTDIR'' then
        ''The path '' @ DQ @ resolvedPath @ DQ @ '' is not a directory.''
      else ''Error accessing path '' @ DQ @ resolvedPath @ DQ @ '': '' @ show_str (err_message e))"

definition initialize_project ::
  "'w collaborators \<Rightarrow> string \<Rightarrow> 'w system \<Rightarrow> envelope \<times> 'w system" where
  "initialize_project C path s =
     (case path_resolve C path of
        Inl e \<Rightarrow>
          (error_result (''Unexpected error initializing project: '' @
             (case e of ErrorObj m c se \<Rightarrow> m | NonError v \<Rightarrow> v)), s)
      | Inr resolvedPath \<Rightarrow>
          (case run_stat C resolvedPath s of
             (Inl e, s1) \<Rightarrow> (error_result (''Error: '' @ stat_error_text resolvedPath e), s1)
           | (Inr isDirectory, s1) \<Rightarrow>
               if \<not> isDirectory then
                 (error_result (''Error: '' @ stat_error_text resolvedPath
                    (ErrorObj (''The path '' @ DQ @ resolvedPath @ DQ @ '' is not a directory.'')
                       None None)), s1)
               else
                 (case checkGitRepo C resolvedPath s1 of
                    (isGitRepo, s2) \<Rightarrow>
                      if \<not> isGitRepo then
                        (error_result (''Error: The path '' @ DQ @ resolvedPath @ DQ @
                           '' is not a git repository. Initialize with '' @ SQ @ ''git init'' @
                           SQ @ '' if needed.''), s2)
                      else
                        (text_result (''Successfully initialized git project at: '' @ resolvedPath),
                         s2\<lparr>state := initializeProject resolvedPath isGitRepo (state s2)\<rparr>))))"

text \<open>
  \<open>create-commit\<close>. \<open>commit_subject\<close>, \<open>commit_body\<close> and \<open>commitCommand\<close> are the constants
  \<open>subject\<close>, \<open>body\<close> and \<open>commitCommand\<close> of the handler; \<open>escapeQuotes\<close> puts a backslash
  before every double quote.
\<close>

definition escapeQuotes :: "string \<Rightarrow> string" where
  "escapeQuotes str = concat (map (\<lambda>c. if c = CHR 0x22 then [CHR 0x5C, CHR 0x22] else [c]) str)"

definition messageLines :: "string \<Rightarrow> string list" where
  "messageLines message = split (CHR 0x0A) (trim message)"

definition commit_subject :: "string \<Rightarrow> string" where
  "commit_subject message = messageLines message ! 0"

definition commit_body :: "string \<Rightarrow> string" where
  "commit_body message = join ''\<newline>'' (drop 1 (messageLines message))"

definition commitCommand :: "string \<Rightarrow> string" where
  "commitCommand message =
     ''git commit -m '' @ DQ @ escapeQuotes (commit_subject message) @ DQ @
     (if commit_body message \<noteq> [] then '' -m '' @ DQ @ escapeQuotes (commit_body message) @ DQ
      else [])"

text \<open>The \<open>catch\<close> block of the handler.\<close>

definition commit_error :: "thrown \<Rightarrow> bool \<Rightarrow> envelope" where
  "commit_error e addAll =
     (let errorMessage = ''Error creating commit: '' @ show_str (err_message e) in
      error_result
        (case err_stderr e of
           None \<Rightarrow> errorMessage
         | Some stderrString \<Rightarrow>
             if stderrString = [] then errorMessage
             else if includes_str stderrString ''nothing to commit'' then
               ''Error: No changes were staged for commit. Use '' @ SQ @ ''addAll: true'' @ SQ @
               '' or stage files manually before committing.''
             else if includes_str stderrString ''Please tell me who you are'' then
               ''Error: Git user identity (name and email) is not configured. Please configure it using '' @
               SQ @ ''git config --global user.name '' @ DQ @ ''Your Name'' @ DQ @ SQ @ '' and '' @
               SQ @ ''git config --global user.email '' @ DQ @ ''your.email@example.com'' @ DQ @ SQ @ ''.''
             else if includes_str stderrString ''changes not staged for commit'' \<and> \<not> addAll then
               ''Error: There are unstaged changes. Use '' @ SQ @ ''addAll: true'' @ SQ @
               '' to include them or stage them manually before committing.''
             else errorMessage @ ''\<newline>Details: '' @ trim stderrString))"

definition validation_error :: "string \<Rightarrow> envelope" where
  "validation_error message =
     error_result (''Error: Commit message validation failed. '' @
       show_str (error (validateConventionalCommitHeader message)) @
       '' Provided message:\<newline>---\<newline>'' @ message @ ''\<newline>---\<newline>To commit anyway, use '' @
       SQ @ ''validate: false'' @ SQ @ ''.'')"

definition run_commit :: "'w collaborators \<Rightarrow> string \<Rightarrow> bool \<Rightarrow> string \<Rightarrow> 'w system \<Rightarrow> envelope \<times> 'w system" where
  "run_commit C message addAll dir s =
     (case run_exec C (commitCommand message) dir s of
        (Inl e, s') \<Rightarrow> (commit_error e addAll, s')
      | (Inr out, s') \<Rightarrow>
          (text_result (''Successfully created commit:\<newline>'' @ trim (stdout out) @ ''\<newline>'' @
             (if stderr out \<noteq> [] then ''\<newline>Git Messages:\<newline>'' @ trim (stderr out) else [])), s'))"

definition create_commit ::
  "'w collaborators \<Rightarrow> string \<Rightarrow> bool \<Rightarrow> bool \<Rightarrow> 'w system \<Rightarrow> envelope \<times> 'w system" where
  "create_commit C message addAll validate s =
     (case projectPath (state s) of
        None \<Rightarrow> (not_initialized, s)
      | Some path \<Rightarrow>
          if path = [] \<or> \<not> isValidGitRepo (state s) then (not_initialized, s)
          else if validate \<and> \<not> isValid (validateConventionalCommitHeader message) then
            (validation_error message, s)
          else if addAll then
            (case run_exec C ''git add -A'' path s of
               (Inl e, s1) \<Rightarrow> (commit_error e addAll, s1)
             | (Inr out, s1) \<Rightarrow> run_commit C message addAll path s1)
          else run_commit C message addAll path s)"

section \<open>The grammar of the header\<close>

text \<open>
  The header that the regular expression accepts, written out: the type, the optional scope
  in parentheses, the optional breaking marker, the colon, one white-space character and the
  description. \<open>header_parts\<close> states what the regular expression asks of each part;
  \<open>caps_of\<close> is the assignment of the four capture groups.
\<close>

definition header_text ::
  "string \<Rightarrow> string option \<Rightarrow> string option \<Rightarrow> char \<Rightarrow> string \<Rightarrow> string" where
  "header_text ty sc br ws desc =
     ty @ (case sc of None \<Rightarrow> [] | Some s \<Rightarrow> ''('' @ s @ '')'') @
     (case br of None \<Rightarrow> [] | Some b \<Rightarrow> b) @ '':'' @ [ws] @ desc"

definition header_parts ::
  "string \<Rightarrow> string option \<Rightarrow> string option \<Rightarrow> char \<Rightarrow> string \<Rightarrow> bool" where
  "header_parts ty sc br ws desc \<longleftrightarrow>
     ty \<noteq> [] \<and> list_all isWordChar ty \<and>
     (case sc of None \<Rightarrow> True | Some s \<Rightarrow> s \<noteq> [] \<and> list_all isScopeChar s) \<and>
     (br = None \<or> br = Some ''!'') \<and>
     isWhiteSpace ws \<and> desc \<noteq> [] \<and> list_all isDotChar desc"

definition caps_of :: "string \<Rightarrow> string option \<Rightarrow> string option \<Rightarrow> string \<Rightarrow> captures" where
  "caps_of ty sc br desc =
     (\<lambda>n. if n = 1 then Some ty else if n = 2 then sc else if n = 3 then br
           else if n = 4 then Some desc else None)"

text \<open>
  The grammar in the words of the specification:
  \<^verbatim>\<open>type( "(" scope ")" )? "!"? ":" " " description\<close>, the type one or more word characters,
  the scope one or more of the word characters, the dot and the hyphen, exactly one space
  after the colon, the description one or more of any character. The type of a header is
  its leading run of word characters.
\<close>

definition SPEC_HEADER_GRAMMAR :: rx where
  "SPEC_HEADER_GRAMMAR =
     Seq (PlusCls isWordChar)
    (Seq (Opt (Seq (Chr (CHR ''('')) (Seq (PlusCls isScopeChar) (Chr (CHR '')'')))))
    (Seq (Opt (Chr (CHR ''!'')))
    (Seq (Chr (CHR '':''))
    (Seq (Chr (CHR '' ''))
         (PlusCls (\<lambda>c. True))))))"

definition spec_header_valid :: "string \<Rightarrow> bool" where
  "spec_header_valid header \<longleftrightarrow>
     list_ex (\<lambda>(caps, rest). rest = []) (rx_run SPEC_HEADER_GRAMMAR (Map.empty, header)) \<and>
     takeWhile isWordChar header \<in> set CONVENTIONAL_COMMIT_TYPES"

section \<open>The checks of the initialization; collaborators for the instances\<close>

text \<open>
  The three checks of \<open>initialize-project\<close> on a raw path in a world: the path resolves, the
  resolved path exists and is a directory, and the probe \<open>git rev-parse --is-inside-work-tree\<close>
  succeeds there.
\<close>

definition checks_pass :: "'w collaborators \<Rightarrow> string \<Rightarrow> 'w \<Rightarrow> bool" where
  "checks_pass C path w =
     (case path_resolve C path of
        Inl e \<Rightarrow> False
      | Inr resolvedPath \<Rightarrow>
          fs_stat C resolvedPath w = Inr True \<and>
          \<not> isl (fst (execPromise C ''git rev-parse --is-inside-work-tree'' resolvedPath w)))"

text \<open>
  Collaborators for the instances of the theorems. The world of \<open>stub\<close> is the list of the
  command lines executed so far; \<open>path.resolve\<close> returns an absolute path as it is, \<open>fs.stat\<close>
  and \<open>exec\<close> answer by the tables \<open>st\<close> and \<open>ex\<close>. Its template is \<open>{diff}\<close>, and its
  \<open>replace\<close> is right on a template that is the pattern itself.
\<close>

definition stub ::
  "(string \<Rightarrow> thrown + bool) \<Rightarrow> (string \<Rightarrow> thrown + exec_output) \<Rightarrow> string list collaborators" where
  "stub st ex =
     \<lparr>path_resolve = (\<lambda>path. Inr path),
      fs_stat = (\<lambda>path w. st path),
      execPromise = (\<lambda>command cwd w. (ex command, w @ [command])),
      getCommitPrompt = ''{diff}'',
      replace = (\<lambda>t pat by. if t = pat then by else t)\<rparr>"

definition is_directory :: "string \<Rightarrow> thrown + bool" where
  "is_directory path = Inr True"

definition no_such_path :: "string \<Rightarrow> thrown + bool" where
  "no_such_path path =
     Inl (ErrorObj (''ENOENT: no such file or directory, stat '' @ SQ @ path @ SQ)
            (Some ''ENOENT'') None)"

text \<open>
  A repository with nothing staged, nothing modified and one untracked file; one where
  \<open>git diff\<close> fails; one where every command fails, as outside a work tree; one where
  every command succeeds with no output, as in a clean work tree.
\<close>

definition untracked_only :: "string \<Rightarrow> thrown + exec_output" where
  "untracked_only command =
     (if command = ''git ls-files --others --exclude-standard''
      then Inr \<lparr>stdout = ''new.txt\<newline>'', stderr = []\<rparr>
      else Inr \<lparr>stdout = [], stderr = []\<rparr>)"

definition diff_fails :: "string \<Rightarrow> thrown + exec_output" where
  "diff_fails command =
     (if command = ''git diff''
      then Inl (ErrorObj ''Command failed: git diff'' None (Some ''fatal: bad object HEAD''))
      else Inr \<lparr>stdout = ''diff --git a/x b/x'', stderr = []\<rparr>)"

definition not_a_repo :: "string \<Rightarrow> thrown + exec_output" where
  "not_a_repo command =
     Inl (ErrorObj (''Command failed: '' @ command) None (Some ''fatal: not a git repository''))"

definition clean_repo :: "string \<Rightarrow> thrown + exec_output" where
  "clean_repo command = Inr \<lparr>stdout = [], stderr = []\<rparr>"

definition fresh :: "string list system" where
  "fresh = \<lparr>state = initial_state, world = [], calls = []\<rparr>"

definition ready :: "string list system" where
  "ready = \<lparr>state = \<lparr>projectPath = Some ''/repo'', isValidGitRepo = True\<rparr>, world = [], calls = []\<rparr>"

section \<open>Properties of the string functions and of the matcher\<close>

lemma split_not_Nil: "split sep s \<noteq> []"
  by (induction s) (auto split: list.splits)

lemma trimEnd_keep: "\<not> isWhiteSpace c \<Longrightarrow> trimEnd (xs @ c # s) = xs @ c # trimEnd s"
  by (simp add: trimEnd_def dropWhile_append)

lemma trim_keep:
  assumes "\<not> isWhiteSpace c" and "\<not> isWhiteSpace d"
  shows "trim (c # xs @ d # s) = c # xs @ d # trimEnd s"
  using assms trimEnd_keep [of d "c # xs" s] by (simp add: trim_def trimStart_def)

lemma run_Chr: "(c', t) \<in> set (rx_run (Chr x) (c, s)) \<longleftrightarrow> s = x # t \<and> c' = c"
  by (auto split: list.splits)

lemma run_Cls:
  "(c', t) \<in> set (rx_run (Cls p) (c, s)) \<longleftrightarrow> (\<exists>x. s = x # t \<and> p x \<and> c' = c)"
  by (auto split: list.splits)

text \<open>The rests after a greedy \<open>+\<close> are the rests after the non-empty prefixes in the class.\<close>

lemma prefix_takeWhile:
  "(\<exists>u. s = u @ t \<and> u \<noteq> [] \<and> (\<forall>x\<in>set u. p x)) \<longleftrightarrow>
   (\<exists>i. 1 \<le> i \<and> i \<le> length (takeWhile p s) \<and> t = drop i s)"
proof
  assume "\<exists>u. s = u @ t \<and> u \<noteq> [] \<and> (\<forall>x\<in>set u. p x)"
  then obtain u where u: "s = u @ t" "u \<noteq> []" "\<forall>x\<in>set u. p x" by blast
  then have "takeWhile p s = u @ takeWhile p t" by (simp add: takeWhile_append2)
  then have "length u \<le> length (takeWhile p s)" by simp
  moreover have "1 \<le> length u" using u(2) by (cases u) auto
  moreover have "t = drop (length u) s" using u(1) by simp
  ultimately show "\<exists>i. 1 \<le> i \<and> i \<le> length (takeWhile p s) \<and> t = drop i s" by blast
next
  assume "\<exists>i. 1 \<le> i \<and> i \<le> length (takeWhile p s) \<and> t = drop i s"
  then obtain i where i: "1 \<le> i" "i \<le> length (takeWhile p s)" "t = drop i s" by blast
  have len: "length (takeWhile p s) \<le> length s" by (rule length_takeWhile_le)
  have "take i s = take i (takeWhile p s)"
    using i(2) by (metis takeWhile_dropWhile_id take_append diff_is_0_eq' take_0 append_Nil2)
  then have "set (take i s) \<subseteq> set (takeWhile p s)" by (metis set_take_subset)
  then have "\<forall>x\<in>set (take i s). p x" by (auto dest: set_takeWhileD)
  moreover have "take i s \<noteq> []" using i len by auto
  moreover have "s = take i s @ t" using i(3) by simp
  ultimately show "\<exists>u. s = u @ t \<and> u \<noteq> [] \<and> (\<forall>x\<in>set u. p x)" by blast
qed

lemma run_PlusCls:
  "(c', t) \<in> set (rx_run (PlusCls p) (c, s)) \<longleftrightarrow>
   (\<exists>u. s = u @ t \<and> u \<noteq> [] \<and> (\<forall>x\<in>set u. p x) \<and> c' = c)"
proof -
  have "(c', t) \<in> set (rx_run (PlusCls p) (c, s)) \<longleftrightarrow>
        c' = c \<and> (\<exists>i. 1 \<le> i \<and> i \<le> length (takeWhile p s) \<and> t = drop i s)"
    by (auto simp: image_iff)
  then show ?thesis using prefix_takeWhile [of s t p] by blast
qed

lemma run_Seq:
  "(c', t) \<in> set (rx_run (Seq a b) (c, s)) \<longleftrightarrow>
   (\<exists>cm m. (cm, m) \<in> set (rx_run a (c, s)) \<and> (c', t) \<in> set (rx_run b (cm, m)))"
  by auto

lemma run_Opt:
  "(c', t) \<in> set (rx_run (Opt a) (c, s)) \<longleftrightarrow>
   (c', t) \<in> set (rx_run a (c, s)) \<or> (c' = c \<and> t = s)"
  by auto

lemma run_Grp:
  "(c', t) \<in> set (rx_run (Grp n a) (c, s)) \<longleftrightarrow>
   (\<exists>ca. (ca, t) \<in> set (rx_run a (c, s)) \<and> c' = ca(n \<mapsto> take (length s - length t) s))"
  by (force simp: image_iff)

lemma run_Grp_PlusCls:
  "(c', t) \<in> set (rx_run (Grp n (PlusCls p)) (c, s)) \<longleftrightarrow>
   (\<exists>u. s = u @ t \<and> u \<noteq> [] \<and> (\<forall>x\<in>set u. p x) \<and> c' = c(n \<mapsto> u))"
  unfolding run_Grp run_PlusCls by auto

section \<open>The regular expression accepts exactly the headers of the grammar\<close>

lemma run_scope:
  "(c', t) \<in> set (rx_run (Opt (Seq (Chr (CHR ''('')) (Seq (Grp 2 (PlusCls isScopeChar)) (Chr (CHR '')''))))) (c, s)) \<longleftrightarrow>
   (c' = c \<and> t = s) \<or>
   (\<exists>u. s = ''('' @ u @ '')'' @ t \<and> u \<noteq> [] \<and> (\<forall>x\<in>set u. isScopeChar x) \<and> c' = c(2 \<mapsto> u))"
  unfolding run_Opt run_Seq run_Grp_PlusCls run_Chr by auto

lemma run_bang:
  "(c', t) \<in> set (rx_run (Opt (Grp 3 (Chr (CHR ''!'')))) (c, s)) \<longleftrightarrow>
   (c' = c \<and> t = s) \<or> (s = ''!'' @ t \<and> c' = c(3 \<mapsto> ''!''))"
  unfolding run_Opt run_Grp run_Chr by auto

lemma run_tail:
  "(c', t) \<in> set (rx_run (Seq (Chr (CHR '':'')) (Seq (Cls isWhiteSpace) (Grp 4 (PlusCls isDotChar)))) (c, s)) \<longleftrightarrow>
   (\<exists>w d. s = '':'' @ [w] @ d @ t \<and> isWhiteSpace w \<and> d \<noteq> [] \<and> (\<forall>x\<in>set d. isDotChar x) \<and> c' = c(4 \<mapsto> d))"
  unfolding run_Seq run_Grp_PlusCls run_Chr run_Cls by auto

lemma run_header:
  "(c', t) \<in> set (rx_run CONVENTIONAL_COMMIT_HEADER_REGEX (Map.empty, s)) \<longleftrightarrow>
   (\<exists>ty sc br ws desc. s = header_text ty sc br ws desc @ t \<and> header_parts ty sc br ws desc \<and>
      c' = caps_of ty sc br desc)"
  (is "?L \<longleftrightarrow> ?R")
proof
  assume ?L
  then obtain c1 s1 c2 s2 c3 s3 where
    a: "(c1, s1) \<in> set (rx_run (Grp 1 (PlusCls isWordChar)) (Map.empty, s))" and
    b: "(c2, s2) \<in> set (rx_run (Opt (Seq (Chr (CHR ''('')) (Seq (Grp 2 (PlusCls isScopeChar)) (Chr (CHR '')''))))) (c1, s1))" and
    c: "(c3, s3) \<in> set (rx_run (Opt (Grp 3 (Chr (CHR ''!'')))) (c2, s2))" and
    d: "(c', t) \<in> set (rx_run (Seq (Chr (CHR '':'')) (Seq (Cls isWhiteSpace) (Grp 4 (PlusCls isDotChar)))) (c3, s3))"
    unfolding CONVENTIONAL_COMMIT_HEADER_REGEX_def run_Seq [of _ _ "Grp 1 (PlusCls isWordChar)"]
      run_Seq [of _ _ "Opt (Seq (Chr (CHR ''('')) (Seq (Grp 2 (PlusCls isScopeChar)) (Chr (CHR '')''))))"]
      run_Seq [of _ _ "Opt (Grp 3 (Chr (CHR ''!'')))"]
    by blast
  from a obtain ty where ty: "s = ty @ s1" "ty \<noteq> []" "\<forall>x\<in>set ty. isWordChar x" "c1 = Map.empty(1 \<mapsto> ty)"
    unfolding run_Grp_PlusCls by blast
  from b obtain sc where sc:
    "s1 = (case sc of None \<Rightarrow> [] | Some u \<Rightarrow> ''('' @ u @ '')'') @ s2"
    "case sc of None \<Rightarrow> True | Some u \<Rightarrow> u \<noteq> [] \<and> list_all isScopeChar u"
    "c2 = (case sc of None \<Rightarrow> c1 | Some u \<Rightarrow> c1(2 \<mapsto> u))"
    unfolding run_scope
  proof (elim disjE exE conjE)
    assume "c2 = c1" "s2 = s1"
    then show ?thesis using that [of None] by simp
  next
    fix u assume "s1 = ''('' @ u @ '')'' @ s2" "u \<noteq> []" "\<forall>x\<in>set u. isScopeChar x" "c2 = c1(2 \<mapsto> u)"
    then show ?thesis using that [of "Some u"] by (simp add: list_all_iff)
  qed
  from c obtain br where br:
    "s2 = (case br of None \<Rightarrow> [] | Some u \<Rightarrow> u) @ s3" "br = None \<or> br = Some ''!''"
    "c3 = (case br of None \<Rightarrow> c2 | Some u \<Rightarrow> c2(3 \<mapsto> u))"
    unfolding run_bang
  proof (elim disjE exE conjE)
    assume "c3 = c2" "s3 = s2"
    then show ?thesis using that [of None] by simp
  next
    assume "s2 = ''!'' @ s3" "c3 = c2(3 \<mapsto> ''!'')"
    then show ?thesis using that [of "Some ''!''"] by simp
  qed
  from d obtain w de where de: "s3 = '':'' @ [w] @ de @ t" "isWhiteSpace w" "de \<noteq> []"
    "\<forall>x\<in>set de. isDotChar x" "c' = c3(4 \<mapsto> de)"
    unfolding run_tail by blast
  have "s = header_text ty sc br w de @ t"
    using ty(1) sc(1) br(1) de(1) by (simp add: header_text_def)
  moreover have "header_parts ty sc br w de"
    using ty(2,3) sc(2) br(2) de(2,3,4) by (simp add: header_parts_def list_all_iff)
  moreover have "c' = caps_of ty sc br de"
    using ty(4) sc(3) br(3) de(5) by (auto simp: caps_of_def fun_eq_iff split: option.splits)
  ultimately show ?R by blast
next
  assume ?R
  then obtain ty sc br ws desc where
    s: "s = header_text ty sc br ws desc @ t" and hp: "header_parts ty sc br ws desc" and
    c': "c' = caps_of ty sc br desc" by blast
  define s3 where "s3 = '':'' @ [ws] @ desc @ t"
  define s2 where "s2 = (case br of None \<Rightarrow> [] | Some b \<Rightarrow> b) @ s3"
  define s1 where "s1 = (case sc of None \<Rightarrow> [] | Some u \<Rightarrow> ''('' @ u @ '')'') @ s2"
  define c1 :: captures where "c1 = Map.empty(1 \<mapsto> ty)"
  define c2 where "c2 = (case sc of None \<Rightarrow> c1 | Some u \<Rightarrow> c1(2 \<mapsto> u))"
  define c3 where "c3 = (case br of None \<Rightarrow> c2 | Some u \<Rightarrow> c2(3 \<mapsto> u))"
  have s_eq: "s = ty @ s1" using s by (simp add: header_text_def s1_def s2_def s3_def)
  have a: "(c1, s1) \<in> set (rx_run (Grp 1 (PlusCls isWordChar)) (Map.empty, s))"
    unfolding run_Grp_PlusCls using s_eq hp by (auto simp: header_parts_def list_all_iff c1_def)
  have b: "(c2, s2) \<in> set (rx_run (Opt (Seq (Chr (CHR ''('')) (Seq (Grp 2 (PlusCls isScopeChar)) (Chr (CHR '')''))))) (c1, s1))"
    unfolding run_scope using hp by (cases sc) (auto simp: header_parts_def list_all_iff c2_def s1_def)
  have c: "(c3, s3) \<in> set (rx_run (Opt (Grp 3 (Chr (CHR ''!'')))) (c2, s2))"
    unfolding run_bang using hp by (cases br) (auto simp: header_parts_def c3_def s2_def)
  have "c' = c3(4 \<mapsto> desc)"
    using c' by (auto simp: caps_of_def fun_eq_iff c3_def c2_def c1_def split: option.splits)
  then have d: "(c', t) \<in> set (rx_run (Seq (Chr (CHR '':'')) (Seq (Cls isWhiteSpace) (Grp 4 (PlusCls isDotChar)))) (c3, s3))"
    unfolding run_tail using hp by (auto simp: header_parts_def list_all_iff s3_def)
  show ?L
    unfolding CONVENTIONAL_COMMIT_HEADER_REGEX_def run_Seq [of _ _ "Grp 1 (PlusCls isWordChar)"]
      run_Seq [of _ _ "Opt (Seq (Chr (CHR ''('')) (Seq (Grp 2 (PlusCls isScopeChar)) (Chr (CHR '')''))))"]
      run_Seq [of _ _ "Opt (Grp 3 (Chr (CHR ''!'')))"]
    using a b c d by blast
qed

lemma js_match_Some:
  assumes "js_match h CONVENTIONAL_COMMIT_HEADER_REGEX = Some g"
  shows "\<exists>ty sc br ws desc. h = header_text ty sc br ws desc \<and> header_parts ty sc br ws desc \<and>
           g = [Some h, Some ty, sc, br, Some desc]"
proof -
  from assms obtain c r more where
    f: "filter (\<lambda>(caps, rest). rest = []) (rx_run CONVENTIONAL_COMMIT_HEADER_REGEX (Map.empty, h)) = (c, r) # more"
    and g: "g = [Some h, c 1, c 2, c 3, c 4]"
    by (auto simp: js_match_def split: list.splits)
  have "(c, r) \<in> set (filter (\<lambda>(caps, rest). rest = []) (rx_run CONVENTIONAL_COMMIT_HEADER_REGEX (Map.empty, h)))"
    unfolding f by simp
  then have "(c, []) \<in> set (rx_run CONVENTIONAL_COMMIT_HEADER_REGEX (Map.empty, h))" by auto
  then obtain ty sc br ws desc where "h = header_text ty sc br ws desc" "header_parts ty sc br ws desc"
    "c = caps_of ty sc br desc"
    unfolding run_header by auto
  then show ?thesis using g by (auto simp: caps_of_def)
qed

lemma js_match_None:
  "js_match h CONVENTIONAL_COMMIT_HEADER_REGEX = None \<longleftrightarrow>
   \<not> (\<exists>ty sc br ws desc. h = header_text ty sc br ws desc \<and> header_parts ty sc br ws desc)"
proof -
  have "js_match h CONVENTIONAL_COMMIT_HEADER_REGEX = None \<longleftrightarrow>
        \<not> (\<exists>c. (c, []) \<in> set (rx_run CONVENTIONAL_COMMIT_HEADER_REGEX (Map.empty, h)))"
  proof -
    have "js_match h CONVENTIONAL_COMMIT_HEADER_REGEX = None \<longleftrightarrow>
      filter (\<lambda>(caps, rest). rest = []) (rx_run CONVENTIONAL_COMMIT_HEADER_REGEX (Map.empty, h)) = []"
      by (simp add: js_match_def split: list.splits prod.splits)
    then show ?thesis by (auto simp: filter_empty_conv)
  qed
  then show ?thesis unfolding run_header by auto
qed

lemma word_chars_no_punct:
  "\<not> isWordChar (CHR ''('')" "\<not> isWordChar (CHR ''!'')" "\<not> isWordChar (CHR '':'')"
  by (simp_all add: isWordChar_def)

lemma header_text_type:
  assumes "header_parts ty sc br ws desc"
  shows "takeWhile isWordChar (header_text ty sc br ws desc) = ty"
proof -
  obtain x rest where r: "header_text ty sc br ws desc = ty @ x # rest" "\<not> isWordChar x"
    using assms word_chars_no_punct
    by (cases sc; cases br) (auto simp: header_text_def header_parts_def)
  have "\<forall>c\<in>set ty. isWordChar c" using assms by (simp add: header_parts_def list_all_iff)
  then show ?thesis unfolding r(1) using r(2) by (simp add: takeWhile_append2)
qed

lemma header_text_not_Nil: "header_text ty sc br ws desc \<noteq> []"
  by (simp add: header_text_def)

lemma types_are_words: "t \<in> set CONVENTIONAL_COMMIT_TYPES \<Longrightarrow> t \<noteq> [] \<and> list_all isWordChar t"
  by (auto simp: CONVENTIONAL_COMMIT_TYPES_def isWordChar_def)

lemma validate_iff:
  "isValid (validateConventionalCommitHeader message) \<longleftrightarrow>
   (\<exists>ty sc br ws desc. header_of message = header_text ty sc br ws desc \<and>
      header_parts ty sc br ws desc \<and> ty \<in> set CONVENTIONAL_COMMIT_TYPES)"
  (is "?L \<longleftrightarrow> ?R")
proof (cases "js_match (header_of message) CONVENTIONAL_COMMIT_HEADER_REGEX")
  case None
  then have "\<not> ?L"
    by (simp add: validateConventionalCommitHeader_def Let_def isValid_def get_prop_def)
  moreover have "\<not> ?R" using None unfolding js_match_None by blast
  ultimately show ?thesis by blast
next
  case (Some g)
  then obtain ty sc br ws desc where
    h: "header_of message = header_text ty sc br ws desc" and hp: "header_parts ty sc br ws desc" and
    g: "g = [Some (header_of message), Some ty, sc, br, Some desc]"
    using js_match_Some by blast
  have ne: "header_of message \<noteq> []" using h header_text_not_Nil by simp
  have de: "desc \<noteq> []" using hp by (simp add: header_parts_def)
  have L: "?L \<longleftrightarrow> ty \<in> set CONVENTIONAL_COMMIT_TYPES"
    using Some g ne de
    by (simp add: validateConventionalCommitHeader_def Let_def isValid_def get_prop_def)
  show ?thesis
  proof
    assume ?L
    then show ?R using L h hp by blast
  next
    assume ?R
    then obtain ty' sc' br' ws' desc' where
      h': "header_of message = header_text ty' sc' br' ws' desc'" and
      hp': "header_parts ty' sc' br' ws' desc'" and t': "ty' \<in> set CONVENTIONAL_COMMIT_TYPES"
      by blast
    have "ty' = ty" using header_text_type [OF hp] header_text_type [OF hp'] h h' by simp
    then show ?L using L t' by simp
  qed
qed

lemma validate_cases:
  "validateConventionalCommitHeader message = [(''isValid'', JBool True)] \<or>
   (\<exists>e. e \<noteq> [] \<and> validateConventionalCommitHeader message = [(''isValid'', JBool False), (''error'', JStr e)])"
  by (simp add: validateConventionalCommitHeader_def Let_def split: option.splits)

section \<open>Properties of the header validator\<close>

lemmas validator_eval = validateConventionalCommitHeader_def header_of_def trim_def trimStart_def
  trimEnd_def js_match_def CONVENTIONAL_COMMIT_HEADER_REGEX_def isWhiteSpace_def isWordChar_def
  isScopeChar_def isDotChar_def isLineTerminator_def CONVENTIONAL_COMMIT_TYPES_def isValid_def
  get_prop_def error_def

lemma validate_true_shape:
  "isValid (validateConventionalCommitHeader message) \<Longrightarrow>
   validateConventionalCommitHeader message = [(''isValid'', JBool True)]"
proof -
  assume v: "isValid (validateConventionalCommitHeader message)"
  have "\<not> isValid [(''isValid'', JBool False), (''error'', JStr e)]" for e
    by (simp add: isValid_def get_prop_def)
  then show ?thesis using v validate_cases [of message] by metis
qed

lemma validate_error_iff:
  "(\<not> isValid (validateConventionalCommitHeader message) \<longrightarrow>
      (\<exists>e. error (validateConventionalCommitHeader message) = Some e \<and> e \<noteq> [])) \<and>
   (isValid (validateConventionalCommitHeader message) \<longrightarrow>
      error (validateConventionalCommitHeader message) = None)"
proof -
  have f: "\<not> isValid [(''isValid'', JBool False), (''error'', JStr e)] \<and>
           error [(''isValid'', JBool False), (''error'', JStr e)] = Some e" for e
    by (simp add: isValid_def get_prop_def error_def)
  have t: "isValid [(''isValid'', JBool True)] \<and> error [(''isValid'', JBool True)] = None"
    by (simp add: isValid_def get_prop_def error_def)
  consider "validateConventionalCommitHeader message = [(''isValid'', JBool True)]"
    | e where "e \<noteq> []"
        "validateConventionalCommitHeader message = [(''isValid'', JBool False), (''error'', JStr e)]"
    using validate_cases [of message] by blast
  then show ?thesis
  proof cases
    case 1
    then show ?thesis using t by simp
  next
    case 2
    then show ?thesis using f [of e] by simp
  qed
qed

lemma valid_groups:
  assumes "isValid (validateConventionalCommitHeader message)"
  shows "\<exists>ty sc br ws desc.
      js_match (header_of message) CONVENTIONAL_COMMIT_HEADER_REGEX =
        Some [Some (header_of message), Some ty, sc, br, Some desc] \<and>
      header_of message = header_text ty sc br ws desc \<and> header_parts ty sc br ws desc"
proof (cases "js_match (header_of message) CONVENTIONAL_COMMIT_HEADER_REGEX")
  case None
  then have "\<not> isValid (validateConventionalCommitHeader message)"
    by (simp add: validateConventionalCommitHeader_def Let_def isValid_def get_prop_def)
  then show ?thesis using assms by simp
next
  case (Some g)
  obtain ty sc br ws desc where "header_of message = header_text ty sc br ws desc"
    "header_parts ty sc br ws desc" "g = [Some (header_of message), Some ty, sc, br, Some desc]"
    using js_match_Some [OF Some] by blast
  then show ?thesis using Some by blast
qed

lemma first_occurrence:
  assumes "xs @ c # ys = xs' @ c # ys'" "c \<notin> set xs" "c \<notin> set xs'"
  shows "xs = xs' \<and> ys = ys'"
proof -
  have "takeWhile (\<lambda>x. x \<noteq> c) (xs @ c # ys) = xs"
    using assms(2) by (subst takeWhile_append2) auto
  moreover have "takeWhile (\<lambda>x. x \<noteq> c) (xs' @ c # ys') = xs'"
    using assms(3) by (subst takeWhile_append2) auto
  ultimately have "xs = xs'" using assms(1) by simp
  then show ?thesis using assms(1) by simp
qed

lemma colon_not_in_head:
  assumes "header_parts ty sc br ws desc"
  shows "CHR '':'' \<notin> set (ty @ (case sc of None \<Rightarrow> [] | Some s \<Rightarrow> ''('' @ s @ '')'') @
     (case br of None \<Rightarrow> [] | Some b \<Rightarrow> b))"
proof -
  have w: "\<not> isWordChar (CHR '':'')" by (simp add: isWordChar_def)
  then have sc: "\<not> isScopeChar (CHR '':'')" by (simp add: isScopeChar_def)
  have "CHR '':'' \<notin> set ty" using assms w by (auto simp: header_parts_def list_all_iff)
  moreover have "CHR '':'' \<notin> set (case sc of None \<Rightarrow> [] | Some s \<Rightarrow> ''('' @ s @ '')'')"
    using assms sc by (cases sc) (auto simp: header_parts_def list_all_iff)
  moreover have "CHR '':'' \<notin> set (case br of None \<Rightarrow> [] | Some b \<Rightarrow> b)"
    using assms by (cases br) (auto simp: header_parts_def)
  ultimately show ?thesis by simp
qed

lemma valid_separator:
  assumes v: "isValid (validateConventionalCommitHeader message)"
    and h: "header_of message = pre @ '':'' @ rest" and p: "CHR '':'' \<notin> set pre"
  shows "\<exists>ws desc. rest = ws # desc \<and> isWhiteSpace ws \<and> desc \<noteq> []"
proof -
  obtain ty sc br ws desc where
    t: "header_of message = header_text ty sc br ws desc" and hp: "header_parts ty sc br ws desc"
    using v validate_iff [of message] by blast
  define front where "front = ty @ (case sc of None \<Rightarrow> [] | Some s \<Rightarrow> ''('' @ s @ '')'') @
     (case br of None \<Rightarrow> [] | Some b \<Rightarrow> b)"
  have "header_text ty sc br ws desc = front @ CHR '':'' # ws # desc"
    by (simp add: header_text_def front_def)
  then have e: "pre @ CHR '':'' # rest = front @ CHR '':'' # ws # desc" using h t by simp
  have n: "CHR '':'' \<notin> set front" using colon_not_in_head [OF hp] by (simp add: front_def)
  have "rest = ws # desc" using first_occurrence [OF e p n] by simp
  moreover have "isWhiteSpace ws" "desc \<noteq> []" using hp by (simp_all add: header_parts_def)
  ultimately show ?thesis by blast
qed

lemma mfa_result:
  "validateConventionalCommitHeader ''feat(auth)!: implement MFA'' = [(''isValid'', JBool True)]"
  by (simp add: validator_eval)

lemma mfa_groups:
  "js_match ''feat(auth)!: implement MFA'' CONVENTIONAL_COMMIT_HEADER_REGEX =
     Some [Some ''feat(auth)!: implement MFA'', Some ''feat'', Some ''auth'', Some ''!'',
           Some ''implement MFA'']"
  by (simp add: validator_eval)

lemmas spec_eval = spec_header_valid_def SPEC_HEADER_GRAMMAR_def

text \<open>
  Claim C2, as amended. For the message \<open>feat(auth)!: implement MFA\<close> the validator returns the
  object \<open>{ isValid: true }\<close> and nothing more. The type \<open>feat\<close>, the scope \<open>auth\<close> and the
  breaking marker \<open>!\<close> are the capture groups 1, 2 and 3 of the match inside the validator.
  For every message that the validator accepts, the returned object is \<open>{ isValid: true }\<close>,
  and the capture groups of the match are the literal pieces of the header line: the header
  is the type, the scope in parentheses if there is one, the marker if there is one, the
  colon, one white-space character and the description.
\<close>

theorem validateHeader_returns_only_isValid:
  "validateConventionalCommitHeader ''feat(auth)!: implement MFA'' = [(''isValid'', JBool True)] \<and>
   js_match ''feat(auth)!: implement MFA'' CONVENTIONAL_COMMIT_HEADER_REGEX =
     Some [Some ''feat(auth)!: implement MFA'', Some ''feat'', Some ''auth'', Some ''!'',
           Some ''implement MFA''] \<and>
   (isValid (validateConventionalCommitHeader message) \<longrightarrow>
      validateConventionalCommitHeader message = [(''isValid'', JBool True)] \<and>
      (\<exists>ty sc br ws desc.
         js_match (header_of message) CONVENTIONAL_COMMIT_HEADER_REGEX =
           Some [Some (header_of message), Some ty, sc, br, Some desc] \<and>
         header_of message = header_text ty sc br ws desc \<and> header_parts ty sc br ws desc))"
proof (intro conjI impI)
  show "validateConventionalCommitHeader ''feat(auth)!: implement MFA'' = [(''isValid'', JBool True)]"
    by (rule mfa_result)
  show "js_match ''feat(auth)!: implement MFA'' CONVENTIONAL_COMMIT_HEADER_REGEX =
     Some [Some ''feat(auth)!: implement MFA'', Some ''feat'', Some ''auth'', Some ''!'',
           Some ''implement MFA'']"
    by (rule mfa_groups)
next
  assume "isValid (validateConventionalCommitHeader message)"
  then show "validateConventionalCommitHeader message = [(''isValid'', JBool True)]"
    by (rule validate_true_shape)
next
  assume "isValid (validateConventionalCommitHeader message)"
  then show "\<exists>ty sc br ws desc.
         js_match (header_of message) CONVENTIONAL_COMMIT_HEADER_REGEX =
           Some [Some (header_of message), Some ty, sc, br, Some desc] \<and>
         header_of message = header_text ty sc br ws desc \<and> header_parts ty sc br ws desc"
    by (rule valid_groups)
qed

text \<open>The theorem at the accepted message \<open>fix(api.v2): handle timeout\<close>.\<close>

theorem validateHeader_returns_only_isValid_witness:
  "isValid (validateConventionalCommitHeader ''fix(api.v2): handle timeout'') \<and>
   validateConventionalCommitHeader ''fix(api.v2): handle timeout'' = [(''isValid'', JBool True)] \<and>
   (\<exists>ty sc br ws desc.
      js_match (header_of ''fix(api.v2): handle timeout'') CONVENTIONAL_COMMIT_HEADER_REGEX =
        Some [Some (header_of ''fix(api.v2): handle timeout''), Some ty, sc, br, Some desc] \<and>
      header_of ''fix(api.v2): handle timeout'' = header_text ty sc br ws desc \<and>
      header_parts ty sc br ws desc)"
proof -
  have v: "isValid (validateConventionalCommitHeader ''fix(api.v2): handle timeout'')"
    by (simp add: validator_eval)
  show ?thesis using v validateHeader_returns_only_isValid [of "''fix(api.v2): handle timeout''"] by simp
qed

text \<open>
  The object returned for \<open>feat(auth)!: implement MFA\<close> has the property \<open>isValid\<close> and no
  property \<open>type\<close>, \<open>scope\<close> or \<open>breaking\<close>.
\<close>

theorem validateHeader_mfa_has_no_type_field:
  "isValid (validateConventionalCommitHeader ''feat(auth)!: implement MFA'') \<and>
   get_prop (validateConventionalCommitHeader ''feat(auth)!: implement MFA'') ''type'' \<noteq> Some (JStr ''feat'') \<and>
   get_prop (validateConventionalCommitHeader ''feat(auth)!: implement MFA'') ''scope'' \<noteq> Some (JStr ''auth'') \<and>
   get_prop (validateConventionalCommitHeader ''feat(auth)!: implement MFA'') ''breaking'' \<noteq> Some (JBool True)"
  by (simp add: validator_eval)

text \<open>
  Claim C3, as amended. The validator accepts a message exactly when the trimmed first line
  is a type of the fixed list, an optional scope in parentheses, an optional \<open>!\<close>, a colon,
  one white-space character (a space, a tab or any other character of \<open>\s\<close>) and a
  description of one or more characters none of which is a line terminator. A rejection
  carries a non-empty error string; an acceptance carries no error.
\<close>

theorem validateHeader_valid_iff_grammar:
  "(isValid (validateConventionalCommitHeader message) \<longleftrightarrow>
      (\<exists>ty sc br ws desc. header_of message = header_text ty sc br ws desc \<and>
         header_parts ty sc br ws desc \<and> ty \<in> set CONVENTIONAL_COMMIT_TYPES)) \<and>
   (\<not> isValid (validateConventionalCommitHeader message) \<longrightarrow>
      (\<exists>e. error (validateConventionalCommitHeader message) = Some e \<and> e \<noteq> [])) \<and>
   (isValid (validateConventionalCommitHeader message) \<longrightarrow>
      error (validateConventionalCommitHeader message) = None)"
  using validate_iff [of message] validate_error_iff [of message] by simp

text \<open>The theorem at an accepted and at a rejected message.\<close>

theorem validateHeader_valid_iff_grammar_witness:
  "isValid (validateConventionalCommitHeader ''docs: update readme'') \<and>
   error (validateConventionalCommitHeader ''docs: update readme'') = None \<and>
   \<not> isValid (validateConventionalCommitHeader ''bogus: nope'') \<and>
   (\<exists>e. error (validateConventionalCommitHeader ''bogus: nope'') = Some e \<and> e \<noteq> [])"
proof -
  have v: "isValid (validateConventionalCommitHeader ''docs: update readme'')"
    by (simp add: validator_eval)
  have n: "\<not> isValid (validateConventionalCommitHeader ''bogus: nope'')"
    by (simp add: validator_eval)
  show ?thesis
    using v n validateHeader_valid_iff_grammar [of "''docs: update readme''"]
      validateHeader_valid_iff_grammar [of "''bogus: nope''"]
    by simp
qed

text \<open>
  Against the grammar in the words of the specification: a header with a tab after the
  colon is accepted by the validator and is not in the grammar; a header whose description
  holds a carriage return is in the grammar and is rejected by the validator.
\<close>

theorem validateHeader_differs_from_spec_grammar:
  "(isValid (validateConventionalCommitHeader (''feat:'' @ [CHR 0x09] @ ''add parser'')) \<and>
    \<not> spec_header_valid (header_of (''feat:'' @ [CHR 0x09] @ ''add parser''))) \<and>
   (\<not> isValid (validateConventionalCommitHeader (''feat: add'' @ [CHR 0x0D] @ ''parser'')) \<and>
    spec_header_valid (header_of (''feat: add'' @ [CHR 0x0D] @ ''parser'')))"
  by (simp add: validator_eval spec_eval)

text \<open>
  Claim C4, as amended. The validator accepts a header only when a white-space character
  follows the colon: when the text after the first colon of the header is empty or starts
  with a character that is not white space, the message is rejected. (Before its first colon
  an accepted header holds the type, the scope and the marker, none of which has a colon.)
\<close>

theorem validateHeader_needs_whitespace_after_colon:
  assumes "header_of message = pre @ '':'' @ rest" and "CHR '':'' \<notin> set pre"
    and "rest = [] \<or> \<not> isWhiteSpace (hd rest)"
  shows "\<not> isValid (validateConventionalCommitHeader message)"
  using assms valid_separator [of message pre rest] by auto

text \<open>The theorem at \<open>feat:add parser\<close>, where nothing separates the colon from the text.\<close>

theorem validateHeader_needs_whitespace_after_colon_witness:
  "header_of ''feat:add parser'' = ''feat'' @ '':'' @ ''add parser'' \<and>
   CHR '':'' \<notin> set ''feat'' \<and> \<not> isWhiteSpace (hd ''add parser'') \<and>
   \<not> isValid (validateConventionalCommitHeader ''feat:add parser'')"
proof -
  have 1: "header_of ''feat:add parser'' = ''feat'' @ '':'' @ ''add parser''"
    by (simp add: header_of_def trim_def trimStart_def trimEnd_def isWhiteSpace_def)
  have 2: "CHR '':'' \<notin> set ''feat''" by simp
  have 3: "''add parser'' = [] \<or> \<not> isWhiteSpace (hd ''add parser'')" by (simp add: isWhiteSpace_def)
  show ?thesis using 1 2 3 validateHeader_needs_whitespace_after_colon [OF 1 2 3] by simp
qed

text \<open>A header with a tab, not a space, after the colon is accepted.\<close>

theorem validateHeader_accepts_tab_after_colon:
  "isValid (validateConventionalCommitHeader (''fix(core)!:'' @ [CHR 0x09] @ ''drop legacy api'')) \<and>
   [CHR 0x09] \<noteq> '' ''"
  by (simp add: validator_eval)

section \<open>Properties of the diff aggregator\<close>

lemmas string_eval = trim_def trimStart_def trimEnd_def isWhiteSpace_def startsWith_def

lemma render_diff_alt:
  "render_diff a b u =
     (if snd (diff_sections a b u) then trim (fst (diff_sections a b u)) else ''No changes detected'')"
  by (cases "diff_sections a b u") (simp add: render_diff_def)

lemma has_changes_iff:
  "snd (diff_sections a b u) \<longleftrightarrow> trim a \<noteq> [] \<or> trim b \<noteq> [] \<or> untrackedFiles_of u \<noteq> []"
  by (simp add: diff_sections_def Let_def)

lemma untracked_empty_iff:
  "untrackedFiles_of u = [] \<longleftrightarrow> (\<forall>l\<in>set (split (CHR 0x0A) u). trim l = [])"
  by (simp add: untrackedFiles_of_def filter_empty_conv)

lemma sections_prefix:
  assumes "snd (diff_sections a b u)"
  shows "\<exists>c rest. \<not> isWhiteSpace c \<and> fst (diff_sections a b u) = ''=== '' @ c # rest"
proof -
  have S: "\<not> isWhiteSpace (CHR ''S'')" and U: "\<not> isWhiteSpace (CHR ''U'')"
    by (simp_all add: isWhiteSpace_def)
  consider "trim a \<noteq> []" | "trim a = []" "trim b \<noteq> []"
    | "trim a = []" "trim b = []" "untrackedFiles_of u \<noteq> []"
    using assms has_changes_iff by blast
  then show ?thesis
  proof cases
    case 1
    then have "\<exists>rest. fst (diff_sections a b u) = ''=== '' @ CHR ''S'' # rest"
      by (simp add: diff_sections_def Let_def)
    then show ?thesis using S by blast
  next
    case 2
    then have "\<exists>rest. fst (diff_sections a b u) = ''=== '' @ CHR ''U'' # rest"
      by (simp add: diff_sections_def Let_def)
    then show ?thesis using U by blast
  next
    case 3
    then have "\<exists>rest. fst (diff_sections a b u) = ''=== '' @ CHR ''U'' # rest"
      by (simp add: diff_sections_def Let_def)
    then show ?thesis using U by blast
  qed
qed

lemma render_changes:
  assumes "snd (diff_sections a b u)"
  shows "\<exists>c rest. \<not> isWhiteSpace c \<and> render_diff a b u = ''=== '' @ c # rest"
proof -
  obtain c rest where c: "\<not> isWhiteSpace c" and r: "fst (diff_sections a b u) = ''=== '' @ c # rest"
    using sections_prefix [OF assms] by blast
  have eq: "\<not> isWhiteSpace (CHR ''='')" by (simp add: isWhiteSpace_def)
  have "trim (''=== '' @ c # rest) = ''=== '' @ c # trimEnd rest"
    using trim_keep [OF eq c, of "''== ''" rest] by simp
  then have "render_diff a b u = ''=== '' @ c # trimEnd rest"
    using assms r by (simp add: render_diff_alt)
  then show ?thesis using c by blast
qed

lemma render_no_changes:
  "\<not> snd (diff_sections a b u) \<Longrightarrow> render_diff a b u = ''No changes detected''"
  by (simp add: render_diff_alt)

lemma render_only_untracked:
  assumes "trim a = []" "trim b = []" "untrackedFiles_of u \<noteq> []"
  shows "render_diff a b u =
     trim (''=== UNTRACKED FILES ===\<newline>'' @ join ''\<newline>'' (untrackedFiles_of u) @ ''\<newline>'')"
  using assms by (simp add: render_diff_alt diff_sections_def Let_def)

lemma classify_changes:
  assumes "snd (diff_sections a b u)"
  shows "startsWith (render_diff a b u) ''=== '' \<and> render_diff a b u \<noteq> ''No changes detected'' \<and>
    \<not> startsWith (render_diff a b u) ''Error retrieving git diff:'' \<and>
    classify (render_diff a b u) = Changes (render_diff a b u)"
proof -
  obtain c rest where r: "render_diff a b u = ''=== '' @ c # rest"
    using render_changes [OF assms] by blast
  have 1: "startsWith (render_diff a b u) ''=== ''" unfolding r by (simp add: startsWith_def)
  have 2: "render_diff a b u \<noteq> ''No changes detected''" unfolding r by simp
  have 3: "\<not> startsWith (render_diff a b u) ''Error retrieving git diff:''"
    unfolding r by (simp add: startsWith_def)
  have "classify (render_diff a b u) = Changes (render_diff a b u)"
    using 2 3 by (simp add: classify_def)
  then show ?thesis using 1 2 3 by simp
qed

lemma classify_error:
  "startsWith (diff_error e) ''Error retrieving git diff:'' \<and>
   diff_error e \<noteq> ''No changes detected'' \<and> classify (diff_error e) = Failure (diff_error e)"
  by (cases e) (simp_all add: diff_error_def startsWith_def classify_def)

lemma classify_empty:
  "classify ''No changes detected'' = Empty \<and>
   \<not> startsWith ''No changes detected'' ''Error retrieving git diff:''"
  by (simp add: classify_def startsWith_def)

lemma classify_render_Empty_iff:
  "classify (render_diff a b u) = Empty \<longleftrightarrow> \<not> snd (diff_sections a b u)"
proof (cases "snd (diff_sections a b u)")
  case True
  then show ?thesis using classify_changes [OF True] by simp
next
  case False
  then show ?thesis using render_no_changes [OF False] classify_empty by simp
qed


lemma getGitDiff_staged_fails:
  "run_exec C ''git diff --staged'' dir s = (Inl e, s1) \<Longrightarrow> getGitDiff C dir s = (diff_error e, s1)"
  by (simp add: getGitDiff_def)

lemma getGitDiff_unstaged_fails:
  "run_exec C ''git diff --staged'' dir s = (Inr a, s1) \<Longrightarrow>
   run_exec C ''git diff'' dir s1 = (Inl e, s2) \<Longrightarrow> getGitDiff C dir s = (diff_error e, s2)"
  by (simp add: getGitDiff_def)

lemma getGitDiff_untracked_fails:
  "run_exec C ''git diff --staged'' dir s = (Inr a, s1) \<Longrightarrow>
   run_exec C ''git diff'' dir s1 = (Inr b, s2) \<Longrightarrow>
   run_exec C ''git ls-files --others --exclude-standard'' dir s2 = (Inl e, s3) \<Longrightarrow>
   getGitDiff C dir s = (diff_error e, s3)"
  by (simp add: getGitDiff_def)

lemma getGitDiff_success:
  "run_exec C ''git diff --staged'' dir s = (Inr a, s1) \<Longrightarrow>
   run_exec C ''git diff'' dir s1 = (Inr b, s2) \<Longrightarrow>
   run_exec C ''git ls-files --others --exclude-standard'' dir s2 = (Inr u, s3) \<Longrightarrow>
   getGitDiff C dir s = (render_diff (stdout a) (stdout b) (stdout u), s3)"
  by (simp add: getGitDiff_def)

lemma getGitDiff_shape:
  "(\<exists>e. fst (getGitDiff C dir s) = diff_error e) \<or>
   (\<exists>a b u. fst (getGitDiff C dir s) = render_diff a b u)"
  by (auto simp: getGitDiff_def split: prod.splits sum.splits)

lemma run_exec_calls:
  "run_exec C command dir s = (r, s') \<Longrightarrow> calls s' = calls s @ [Exec command dir] \<and> state s' = state s"
  by (auto simp: run_exec_def split: prod.splits)

text \<open>
  Claim C6. When the three collaborator calls succeed, the diff aggregator returns the
  result Empty exactly when the staged diff and the unstaged diff are blank and the
  untracked listing has no non-blank line. When the two diffs are blank and the listing has
  a non-blank line, it returns Changes, and the text is the trimmed \<open>UNTRACKED FILES\<close> block
  alone: the heading and the non-blank lines of the listing.
\<close>

theorem getGitDiff_empty_and_untracked_only:
  assumes "run_exec C ''git diff --staged'' dir s = (Inr staged, s1)"
    and "run_exec C ''git diff'' dir s1 = (Inr unstaged, s2)"
    and "run_exec C ''git ls-files --others --exclude-standard'' dir s2 = (Inr untracked, s3)"
  shows "(classify (fst (getGitDiff C dir s)) = Empty \<longleftrightarrow>
            trim (stdout staged) = [] \<and> trim (stdout unstaged) = [] \<and>
            (\<forall>line\<in>set (split (CHR 0x0A) (stdout untracked)). trim line = [])) \<and>
         (trim (stdout staged) = [] \<and> trim (stdout unstaged) = [] \<and>
          (\<exists>line\<in>set (split (CHR 0x0A) (stdout untracked)). trim line \<noteq> []) \<longrightarrow>
            fst (getGitDiff C dir s) =
              trim (''=== UNTRACKED FILES ===\<newline>'' @
                    join ''\<newline>'' (filter (\<lambda>line. trim line \<noteq> [])
                                     (split (CHR 0x0A) (stdout untracked))) @ ''\<newline>'') \<and>
            classify (fst (getGitDiff C dir s)) = Changes (fst (getGitDiff C dir s)))"
proof -
  have g: "fst (getGitDiff C dir s) = render_diff (stdout staged) (stdout unstaged) (stdout untracked)"
    using getGitDiff_success [OF assms] by simp
  have 1: "classify (fst (getGitDiff C dir s)) = Empty \<longleftrightarrow>
            trim (stdout staged) = [] \<and> trim (stdout unstaged) = [] \<and>
            (\<forall>line\<in>set (split (CHR 0x0A) (stdout untracked)). trim line = [])"
    unfolding g classify_render_Empty_iff has_changes_iff untracked_empty_iff by blast
  have 2: "fst (getGitDiff C dir s) =
              trim (''=== UNTRACKED FILES ===\<newline>'' @
                    join ''\<newline>'' (filter (\<lambda>line. trim line \<noteq> [])
                                     (split (CHR 0x0A) (stdout untracked))) @ ''\<newline>'') \<and>
            classify (fst (getGitDiff C dir s)) = Changes (fst (getGitDiff C dir s))"
    if h: "trim (stdout staged) = [] \<and> trim (stdout unstaged) = [] \<and>
          (\<exists>line\<in>set (split (CHR 0x0A) (stdout untracked)). trim line \<noteq> [])"
  proof -
    have u: "untrackedFiles_of (stdout untracked) \<noteq> []"
      using h untracked_empty_iff [of "stdout untracked"] by blast
    have c: "snd (diff_sections (stdout staged) (stdout unstaged) (stdout untracked))"
      using u has_changes_iff by blast
    show ?thesis
      unfolding g using render_only_untracked [of "stdout staged" "stdout unstaged", OF _ _ u] h
        classify_changes [OF c] by (simp add: untrackedFiles_of_def)
  qed
  show ?thesis using 1 2 by blast
qed

text \<open>The theorem on a repository whose only change is the untracked file \<open>new.txt\<close>.\<close>

theorem getGitDiff_empty_and_untracked_only_witness:
  "fst (getGitDiff (stub is_directory untracked_only) ''/repo'' ready) =
     ''=== UNTRACKED FILES ===\<newline>new.txt'' \<and>
   classify (fst (getGitDiff (stub is_directory untracked_only) ''/repo'' ready)) \<noteq> Empty"
proof -
  define s1 where "s1 = ready\<lparr>world := [''git diff --staged''],
    calls := [Exec ''git diff --staged'' ''/repo'']\<rparr>"
  define s2 where "s2 = ready\<lparr>world := [''git diff --staged'', ''git diff''],
    calls := [Exec ''git diff --staged'' ''/repo'', Exec ''git diff'' ''/repo'']\<rparr>"
  define s3 where "s3 = ready\<lparr>world := [''git diff --staged'', ''git diff'',
      ''git ls-files --others --exclude-standard''],
    calls := [Exec ''git diff --staged'' ''/repo'', Exec ''git diff'' ''/repo'',
      Exec ''git ls-files --others --exclude-standard'' ''/repo'']\<rparr>"
  define none where "none = \<lparr>stdout = [], stderr = []\<rparr>"
  define listing where "listing = \<lparr>stdout = ''new.txt\<newline>'', stderr = []\<rparr>"
  have a: "run_exec (stub is_directory untracked_only) ''git diff --staged'' ''/repo'' ready =
      (Inr none, s1)"
    by (simp add: run_exec_def stub_def untracked_only_def ready_def s1_def none_def)
  have b: "run_exec (stub is_directory untracked_only) ''git diff'' ''/repo'' s1 = (Inr none, s2)"
    by (simp add: run_exec_def stub_def untracked_only_def ready_def s1_def s2_def none_def)
  have c: "run_exec (stub is_directory untracked_only)
      ''git ls-files --others --exclude-standard'' ''/repo'' s2 = (Inr listing, s3)"
    by (simp add: run_exec_def stub_def untracked_only_def ready_def s2_def s3_def listing_def)
  have t: "trim (stdout none) = []" by (simp add: none_def string_eval)
  have l: "\<exists>line\<in>set (split (CHR 0x0A) (stdout listing)). trim line \<noteq> []"
    by (simp add: listing_def string_eval)
  have r: "trim (''=== UNTRACKED FILES ===\<newline>'' @
       join ''\<newline>'' (filter (\<lambda>line. trim line \<noteq> []) (split (CHR 0x0A) (stdout listing))) @
       ''\<newline>'') = ''=== UNTRACKED FILES ===\<newline>new.txt''"
    by (simp add: listing_def string_eval)
  have f: "fst (getGitDiff (stub is_directory untracked_only) ''/repo'' ready) =
       trim (''=== UNTRACKED FILES ===\<newline>'' @
         join ''\<newline>'' (filter (\<lambda>line. trim line \<noteq> []) (split (CHR 0x0A) (stdout listing))) @
         ''\<newline>'') \<and>
     classify (fst (getGitDiff (stub is_directory untracked_only) ''/repo'' ready)) =
       Changes (fst (getGitDiff (stub is_directory untracked_only) ''/repo'' ready))"
    using getGitDiff_empty_and_untracked_only [OF a b c] t l by blast
  have g1: "fst (getGitDiff (stub is_directory untracked_only) ''/repo'' ready) =
      ''=== UNTRACKED FILES ===\<newline>new.txt''"
    by (rule trans [OF f [THEN conjunct1] r])
  have g2: "classify (fst (getGitDiff (stub is_directory untracked_only) ''/repo'' ready)) \<noteq> Empty"
    using f [THEN conjunct2] by simp
  show ?thesis by (rule conjI [OF g1 g2])
qed

text \<open>
  Claim C7. The three collaborator calls are made in order. When the first one that fails
  throws \<open>e\<close>, the aggregator returns the failure string made of \<open>e\<close> alone, which carries
  the message of \<open>e\<close> and which the callers read as Failure; nothing of the outputs of the calls
  that succeeded is in the result, and no later call is made: the system returned is the one
  right after the failing call.
\<close>

theorem getGitDiff_fails_fast:
  assumes "run_exec C ''git diff --staged'' dir s = (r1, s1)"
    and "run_exec C ''git diff'' dir s1 = (r2, s2)"
    and "run_exec C ''git ls-files --others --exclude-standard'' dir s2 = (r3, s3)"
  shows "(\<forall>e. r1 = Inl e \<longrightarrow> getGitDiff C dir s = (diff_error e, s1)) \<and>
         (\<forall>a e. r1 = Inr a \<and> r2 = Inl e \<longrightarrow> getGitDiff C dir s = (diff_error e, s2)) \<and>
         (\<forall>a b e. r1 = Inr a \<and> r2 = Inr b \<and> r3 = Inl e \<longrightarrow>
            getGitDiff C dir s = (diff_error e, s3)) \<and>
         (\<forall>e. classify (diff_error e) = Failure (diff_error e)) \<and>
         (\<forall>m c se. diff_error (ErrorObj m c se) = ''Error retrieving git diff: '' @ m) \<and>
         calls s1 = calls s @ [Exec ''git diff --staged'' dir] \<and>
         calls s2 = calls s1 @ [Exec ''git diff'' dir]"
proof (intro conjI allI impI)
  fix e assume "r1 = Inl e"
  then show "getGitDiff C dir s = (diff_error e, s1)"
    using assms(1) by (simp add: getGitDiff_staged_fails)
next
  fix a e assume "r1 = Inr a \<and> r2 = Inl e"
  then show "getGitDiff C dir s = (diff_error e, s2)"
    using assms(1,2) getGitDiff_unstaged_fails [of C dir s a s1 e s2] by simp
next
  fix a b e assume "r1 = Inr a \<and> r2 = Inr b \<and> r3 = Inl e"
  then show "getGitDiff C dir s = (diff_error e, s3)"
    using assms getGitDiff_untracked_fails [of C dir s a s1 b s2 e s3] by simp
next
  fix e show "classify (diff_error e) = Failure (diff_error e)" using classify_error by simp
next
  fix m c se show "diff_error (ErrorObj m c se) = ''Error retrieving git diff: '' @ m"
    by (simp add: diff_error_def)
next
  show "calls s1 = calls s @ [Exec ''git diff --staged'' dir]"
    using run_exec_calls [OF assms(1)] by simp
next
  show "calls s2 = calls s1 @ [Exec ''git diff'' dir]"
    using run_exec_calls [OF assms(2)] by simp
qed

text \<open>The theorem on a repository where \<open>git diff\<close> fails after \<open>git diff --staged\<close> has succeeded.\<close>

theorem getGitDiff_fails_fast_witness:
  "fst (getGitDiff (stub is_directory diff_fails) ''/repo'' ready) =
     ''Error retrieving git diff: Command failed: git diff'' \<and>
   calls (snd (getGitDiff (stub is_directory diff_fails) ''/repo'' ready)) =
     [Exec ''git diff --staged'' ''/repo'', Exec ''git diff'' ''/repo'']"
proof -
  define s1 where "s1 = ready\<lparr>world := [''git diff --staged''],
    calls := [Exec ''git diff --staged'' ''/repo'']\<rparr>"
  define s2 where "s2 = ready\<lparr>world := [''git diff --staged'', ''git diff''],
    calls := [Exec ''git diff --staged'' ''/repo'', Exec ''git diff'' ''/repo'']\<rparr>"
  define s3 where "s3 = ready\<lparr>world := [''git diff --staged'', ''git diff'',
      ''git ls-files --others --exclude-standard''],
    calls := [Exec ''git diff --staged'' ''/repo'', Exec ''git diff'' ''/repo'',
      Exec ''git ls-files --others --exclude-standard'' ''/repo'']\<rparr>"
  have a: "run_exec (stub is_directory diff_fails) ''git diff --staged'' ''/repo'' ready =
      (Inr \<lparr>stdout = ''diff --git a/x b/x'', stderr = []\<rparr>, s1)"
    by (simp add: run_exec_def stub_def diff_fails_def ready_def s1_def)
  have b: "run_exec (stub is_directory diff_fails) ''git diff'' ''/repo'' s1 =
      (Inl (ErrorObj ''Command failed: git diff'' None (Some ''fatal: bad object HEAD'')), s2)"
    by (simp add: run_exec_def stub_def diff_fails_def ready_def s1_def s2_def)
  have c: "run_exec (stub is_directory diff_fails)
      ''git ls-files --others --exclude-standard'' ''/repo'' s2 =
      (Inr \<lparr>stdout = ''diff --git a/x b/x'', stderr = []\<rparr>, s3)"
    by (simp add: run_exec_def stub_def diff_fails_def ready_def s2_def s3_def)
  have "getGitDiff (stub is_directory diff_fails) ''/repo'' ready =
     (diff_error (ErrorObj ''Command failed: git diff'' None (Some ''fatal: bad object HEAD'')), s2)"
    using getGitDiff_fails_fast [OF a b c] by blast
  then show ?thesis by (simp add: diff_error_def s2_def ready_def)
qed

lemma get_git_diff_open:
  assumes "projectPath (state s) = Some dir" and "dir \<noteq> []" and "isValidGitRepo (state s)"
    and "getGitDiff C dir s = (d, s')"
  shows "get_git_diff C s =
           (if startsWith d ''Error retrieving git diff:'' then error_result d else text_result d, s')"
  using assms by (simp add: get_git_diff_def)

lemma generate_commit_prompt_open:
  assumes "projectPath (state s) = Some dir" and "dir \<noteq> []" and "isValidGitRepo (state s)"
    and "getGitDiff C dir s = (d, s')"
  shows "generate_commit_prompt C scope s =
           (if d = ''No changes detected'' then
              text_result ''No changes detected to generate a commit message prompt for.''
            else if startsWith d ''Error retrieving git diff:'' then error_result d
            else text_result (replace C (replace C (getCommitPrompt C) ''{diff}'' d)
                   ''{scope_instruction}'' (scope_instruction scope)), s')"
  using assms by (simp add: generate_commit_prompt_def Let_def)

lemma callers_on_failure:
  assumes "projectPath (state s) = Some dir" and "dir \<noteq> []" and "isValidGitRepo (state s)"
    and "getGitDiff C dir s = (diff_error e, s')"
  shows "get_git_diff C s = (error_result (diff_error e), s') \<and>
         generate_commit_prompt C scope s = (error_result (diff_error e), s')"
  using get_git_diff_open [OF assms] generate_commit_prompt_open [OF assms, of scope]
    classify_error [of e] by simp

lemma callers_on_empty:
  assumes "projectPath (state s) = Some dir" and "dir \<noteq> []" and "isValidGitRepo (state s)"
    and "getGitDiff C dir s = (render_diff a b u, s')" and "\<not> snd (diff_sections a b u)"
  shows "get_git_diff C s = (text_result ''No changes detected'', s') \<and>
         generate_commit_prompt C scope s =
           (text_result ''No changes detected to generate a commit message prompt for.'', s')"
proof -
  have d: "render_diff a b u = ''No changes detected''" using render_no_changes [OF assms(5)] .
  have g: "getGitDiff C dir s = (''No changes detected'', s')" using assms(4) d by simp
  show ?thesis
    using get_git_diff_open [OF assms(1-3) g] generate_commit_prompt_open [OF assms(1-3) g, of scope]
      classify_empty by simp
qed

lemma callers_on_changes:
  assumes "projectPath (state s) = Some dir" and "dir \<noteq> []" and "isValidGitRepo (state s)"
    and "getGitDiff C dir s = (render_diff a b u, s')" and "snd (diff_sections a b u)"
  shows "get_git_diff C s = (text_result (render_diff a b u), s') \<and>
         generate_commit_prompt C scope s =
           (text_result (replace C (replace C (getCommitPrompt C) ''{diff}'' (render_diff a b u))
              ''{scope_instruction}'' (scope_instruction scope)), s')"
  using get_git_diff_open [OF assms(1-4)] generate_commit_prompt_open [OF assms(1-4), of scope]
    classify_changes [OF assms(5)] by simp

text \<open>
  Claim C10. In an initialized system the aggregator returns in one of three ways, and the
  two callers tell them apart by the string alone. When the first failing call throws \<open>e\<close>,
  the string begins with \<open>Error retrieving git diff:\<close>, and \<open>get-git-diff\<close> and
  \<open>generate-commit-prompt\<close> both return it as an error. When the three calls succeed without
  changes, the string is the sentinel \<open>No changes detected\<close>: \<open>get-git-diff\<close> returns it as
  text and \<open>generate-commit-prompt\<close> returns its notice. When they succeed with changes, the
  string begins with \<open>=== \<close>, is not the sentinel and does not begin with the failure
  prefix: \<open>get-git-diff\<close> returns it as text and \<open>generate-commit-prompt\<close> returns the
  template filled with it.
\<close>

theorem diff_result_classification_unambiguous:
  assumes "projectPath (state s) = Some dir" and "dir \<noteq> []" and "isValidGitRepo (state s)"
    and "run_exec C ''git diff --staged'' dir s = (r1, s1)"
    and "run_exec C ''git diff'' dir s1 = (r2, s2)"
    and "run_exec C ''git ls-files --others --exclude-standard'' dir s2 = (r3, s3)"
  shows
    "(\<forall>e. r1 = Inl e \<longrightarrow>
        classify (fst (getGitDiff C dir s)) = Failure (diff_error e) \<and>
        startsWith (diff_error e) ''Error retrieving git diff:'' \<and>
        get_git_diff C s = (error_result (diff_error e), s1) \<and>
        generate_commit_prompt C scope s = (error_result (diff_error e), s1)) \<and>
     (\<forall>a e. r1 = Inr a \<and> r2 = Inl e \<longrightarrow>
        classify (fst (getGitDiff C dir s)) = Failure (diff_error e) \<and>
        startsWith (diff_error e) ''Error retrieving git diff:'' \<and>
        get_git_diff C s = (error_result (diff_error e), s2) \<and>
        generate_commit_prompt C scope s = (error_result (diff_error e), s2)) \<and>
     (\<forall>a b e. r1 = Inr a \<and> r2 = Inr b \<and> r3 = Inl e \<longrightarrow>
        classify (fst (getGitDiff C dir s)) = Failure (diff_error e) \<and>
        startsWith (diff_error e) ''Error retrieving git diff:'' \<and>
        get_git_diff C s = (error_result (diff_error e), s3) \<and>
        generate_commit_prompt C scope s = (error_result (diff_error e), s3)) \<and>
     (\<forall>a b u. r1 = Inr a \<and> r2 = Inr b \<and> r3 = Inr u \<and>
        \<not> snd (diff_sections (stdout a) (stdout b) (stdout u)) \<longrightarrow>
        classify (fst (getGitDiff C dir s)) = Empty \<and>
        get_git_diff C s = (text_result ''No changes detected'', s3) \<and>
        generate_commit_prompt C scope s =
          (text_result ''No changes detected to generate a commit message prompt for.'', s3)) \<and>
     (\<forall>a b u. r1 = Inr a \<and> r2 = Inr b \<and> r3 = Inr u \<and>
        snd (diff_sections (stdout a) (stdout b) (stdout u)) \<longrightarrow>
        startsWith (render_diff (stdout a) (stdout b) (stdout u)) ''=== '' \<and>
        render_diff (stdout a) (stdout b) (stdout u) \<noteq> ''No changes detected'' \<and>
        \<not> startsWith (render_diff (stdout a) (stdout b) (stdout u)) ''Error retrieving git diff:'' \<and>
        classify (fst (getGitDiff C dir s)) = Changes (render_diff (stdout a) (stdout b) (stdout u)) \<and>
        get_git_diff C s = (text_result (render_diff (stdout a) (stdout b) (stdout u)), s3) \<and>
        generate_commit_prompt C scope s =
          (text_result (replace C (replace C (getCommitPrompt C) ''{diff}''
                          (render_diff (stdout a) (stdout b) (stdout u)))
                        ''{scope_instruction}'' (scope_instruction scope)), s3))"
proof (intro conjI allI impI)
  fix e assume r: "r1 = Inl e"
  have g: "getGitDiff C dir s = (diff_error e, s1)"
    using assms(4) r by (simp add: getGitDiff_staged_fails)
  show "classify (fst (getGitDiff C dir s)) = Failure (diff_error e)"
    using g classify_error [of e] by simp
  show "startsWith (diff_error e) ''Error retrieving git diff:''" using classify_error [of e] by simp
  show "get_git_diff C s = (error_result (diff_error e), s1)"
    using callers_on_failure [OF assms(1-3) g] by simp
  show "generate_commit_prompt C scope s = (error_result (diff_error e), s1)"
    using callers_on_failure [OF assms(1-3) g] by simp
next
  fix a e assume r: "r1 = Inr a \<and> r2 = Inl e"
  have g: "getGitDiff C dir s = (diff_error e, s2)"
    using assms(4,5) r getGitDiff_unstaged_fails [of C dir s a s1 e s2] by simp
  show "classify (fst (getGitDiff C dir s)) = Failure (diff_error e)"
    using g classify_error [of e] by simp
  show "startsWith (diff_error e) ''Error retrieving git diff:''" using classify_error [of e] by simp
  show "get_git_diff C s = (error_result (diff_error e), s2)"
    using callers_on_failure [OF assms(1-3) g] by simp
  show "generate_commit_prompt C scope s = (error_result (diff_error e), s2)"
    using callers_on_failure [OF assms(1-3) g] by simp
next
  fix a b e assume r: "r1 = Inr a \<and> r2 = Inr b \<and> r3 = Inl e"
  have g: "getGitDiff C dir s = (diff_error e, s3)"
    using assms(4,5,6) r getGitDiff_untracked_fails [of C dir s a s1 b s2 e s3] by simp
  show "classify (fst (getGitDiff C dir s)) = Failure (diff_error e)"
    using g classify_error [of e] by simp
  show "startsWith (diff_error e) ''Error retrieving git diff:''" using classify_error [of e] by simp
  show "get_git_diff C s = (error_result (diff_error e), s3)"
    using callers_on_failure [OF assms(1-3) g] by simp
  show "generate_commit_prompt C scope s = (error_result (diff_error e), s3)"
    using callers_on_failure [OF assms(1-3) g] by simp
next
  fix a b u assume r: "r1 = Inr a \<and> r2 = Inr b \<and> r3 = Inr u \<and>
        \<not> snd (diff_sections (stdout a) (stdout b) (stdout u))"
  have g: "getGitDiff C dir s = (render_diff (stdout a) (stdout b) (stdout u), s3)"
    using assms(4,5,6) r getGitDiff_success [of C dir s a s1 b s2 u s3] by simp
  have n: "\<not> snd (diff_sections (stdout a) (stdout b) (stdout u))" using r by simp
  show "classify (fst (getGitDiff C dir s)) = Empty"
    using g n classify_render_Empty_iff [of "stdout a" "stdout b" "stdout u"] by simp
  show "get_git_diff C s = (text_result ''No changes detected'', s3)"
    using callers_on_empty [OF assms(1-3) g n] by simp
  show "generate_commit_prompt C scope s =
          (text_result ''No changes detected to generate a commit message prompt for.'', s3)"
    using callers_on_empty [OF assms(1-3) g n] by simp
next
  fix a b u assume r: "r1 = Inr a \<and> r2 = Inr b \<and> r3 = Inr u \<and>
        snd (diff_sections (stdout a) (stdout b) (stdout u))"
  have g: "getGitDiff C dir s = (render_diff (stdout a) (stdout b) (stdout u), s3)"
    using assms(4,5,6) r getGitDiff_success [of C dir s a s1 b s2 u s3] by simp
  have h: "snd (diff_sections (stdout a) (stdout b) (stdout u))" using r by simp
  note cc = classify_changes [OF h]
  show "startsWith (render_diff (stdout a) (stdout b) (stdout u)) ''=== ''" using cc by simp
  show "render_diff (stdout a) (stdout b) (stdout u) \<noteq> ''No changes detected''" using cc by simp
  show "\<not> startsWith (render_diff (stdout a) (stdout b) (stdout u)) ''Error retrieving git diff:''"
    using cc by simp
  show "classify (fst (getGitDiff C dir s)) = Changes (render_diff (stdout a) (stdout b) (stdout u))"
    using g cc by simp
  show "get_git_diff C s = (text_result (render_diff (stdout a) (stdout b) (stdout u)), s3)"
    using callers_on_changes [OF assms(1-3) g h] by simp
  show "generate_commit_prompt C scope s =
          (text_result (replace C (replace C (getCommitPrompt C) ''{diff}''
                          (render_diff (stdout a) (stdout b) (stdout u)))
                        ''{scope_instruction}'' (scope_instruction scope)), s3)"
    using callers_on_changes [OF assms(1-3) g h] by simp
qed

text \<open>
  The theorem on a repository with one untracked file, on one where \<open>git diff\<close> fails and
  on a clean work tree.
\<close>

theorem diff_result_classification_unambiguous_witness:
  "fst (get_git_diff (stub is_directory untracked_only) ready) =
     text_result ''=== UNTRACKED FILES ===\<newline>new.txt'' \<and>
   fst (generate_commit_prompt (stub is_directory untracked_only) (Some ''api'') ready) =
     text_result ''=== UNTRACKED FILES ===\<newline>new.txt'' \<and>
   fst (get_git_diff (stub is_directory diff_fails) ready) =
     error_result ''Error retrieving git diff: Command failed: git diff'' \<and>
   fst (generate_commit_prompt (stub is_directory diff_fails) (Some ''api'') ready) =
     error_result ''Error retrieving git diff: Command failed: git diff'' \<and>
   fst (get_git_diff (stub is_directory clean_repo) ready) = text_result ''No changes detected'' \<and>
   fst (generate_commit_prompt (stub is_directory clean_repo) (Some ''api'') ready) =
     text_result ''No changes detected to generate a commit message prompt for.''"
proof -
  define s1 where "s1 = ready\<lparr>world := [''git diff --staged''],
    calls := [Exec ''git diff --staged'' ''/repo'']\<rparr>"
  define s2 where "s2 = ready\<lparr>world := [''git diff --staged'', ''git diff''],
    calls := [Exec ''git diff --staged'' ''/repo'', Exec ''git diff'' ''/repo'']\<rparr>"
  define s3 where "s3 = ready\<lparr>world := [''git diff --staged'', ''git diff'',
      ''git ls-files --others --exclude-standard''],
    calls := [Exec ''git diff --staged'' ''/repo'', Exec ''git diff'' ''/repo'',
      Exec ''git ls-files --others --exclude-standard'' ''/repo'']\<rparr>"
  define none where "none = \<lparr>stdout = [], stderr = []\<rparr>"
  define listing where "listing = \<lparr>stdout = ''new.txt\<newline>'', stderr = []\<rparr>"
  define patch where "patch = \<lparr>stdout = ''diff --git a/x b/x'', stderr = []\<rparr>"
  define boom where
    "boom = ErrorObj ''Command failed: git diff'' None (Some ''fatal: bad object HEAD'')"
  have 1: "projectPath (state ready) = Some ''/repo''" by (simp add: ready_def)
  have 2: "''/repo'' \<noteq> []" by simp
  have 3: "isValidGitRepo (state ready)" by (simp add: ready_def)
  have ua: "run_exec (stub is_directory untracked_only) ''git diff --staged'' ''/repo'' ready =
      (Inr none, s1)"
    by (simp add: run_exec_def stub_def untracked_only_def ready_def s1_def none_def)
  have ub: "run_exec (stub is_directory untracked_only) ''git diff'' ''/repo'' s1 = (Inr none, s2)"
    by (simp add: run_exec_def stub_def untracked_only_def ready_def s1_def s2_def none_def)
  have uc: "run_exec (stub is_directory untracked_only)
      ''git ls-files --others --exclude-standard'' ''/repo'' s2 = (Inr listing, s3)"
    by (simp add: run_exec_def stub_def untracked_only_def ready_def s2_def s3_def listing_def)
  have uh: "snd (diff_sections (stdout none) (stdout none) (stdout listing))"
    by (simp add: diff_sections_def untrackedFiles_of_def Let_def none_def listing_def string_eval)
  have ur: "render_diff (stdout none) (stdout none) (stdout listing) =
      ''=== UNTRACKED FILES ===\<newline>new.txt''"
    by (simp add: render_diff_def diff_sections_def untrackedFiles_of_def Let_def none_def
        listing_def string_eval)
  have up: "replace (stub is_directory untracked_only)
       (replace (stub is_directory untracked_only) (getCommitPrompt (stub is_directory untracked_only))
          ''{diff}'' ''=== UNTRACKED FILES ===\<newline>new.txt'')
       ''{scope_instruction}'' (scope_instruction (Some ''api'')) =
     ''=== UNTRACKED FILES ===\<newline>new.txt''"
    by (simp add: stub_def)
  have U: "get_git_diff (stub is_directory untracked_only) ready =
       (text_result (render_diff (stdout none) (stdout none) (stdout listing)), s3) \<and>
     generate_commit_prompt (stub is_directory untracked_only) (Some ''api'') ready =
       (text_result (replace (stub is_directory untracked_only)
          (replace (stub is_directory untracked_only)
             (getCommitPrompt (stub is_directory untracked_only)) ''{diff}''
             (render_diff (stdout none) (stdout none) (stdout listing)))
          ''{scope_instruction}'' (scope_instruction (Some ''api''))), s3)"
    using diff_result_classification_unambiguous [OF 1 2 3 ua ub uc, of "Some ''api''"] uh by blast
  have U1: "fst (get_git_diff (stub is_directory untracked_only) ready) =
     text_result ''=== UNTRACKED FILES ===\<newline>new.txt''"
    using U [THEN conjunct1] ur by simp
  have U2: "fst (generate_commit_prompt (stub is_directory untracked_only) (Some ''api'') ready) =
     text_result ''=== UNTRACKED FILES ===\<newline>new.txt''"
    using U [THEN conjunct2] ur up by simp
  have fa: "run_exec (stub is_directory diff_fails) ''git diff --staged'' ''/repo'' ready =
      (Inr patch, s1)"
    by (simp add: run_exec_def stub_def diff_fails_def ready_def s1_def patch_def)
  have fb: "run_exec (stub is_directory diff_fails) ''git diff'' ''/repo'' s1 = (Inl boom, s2)"
    by (simp add: run_exec_def stub_def diff_fails_def ready_def s1_def s2_def boom_def)
  have fc: "run_exec (stub is_directory diff_fails)
      ''git ls-files --others --exclude-standard'' ''/repo'' s2 = (Inr patch, s3)"
    by (simp add: run_exec_def stub_def diff_fails_def ready_def s2_def s3_def patch_def)
  have fe: "diff_error boom = ''Error retrieving git diff: Command failed: git diff''"
    by (simp add: diff_error_def boom_def)
  have F: "get_git_diff (stub is_directory diff_fails) ready = (error_result (diff_error boom), s2) \<and>
     generate_commit_prompt (stub is_directory diff_fails) (Some ''api'') ready =
       (error_result (diff_error boom), s2)"
    using diff_result_classification_unambiguous [OF 1 2 3 fa fb fc, of "Some ''api''"] by blast
  have F1: "fst (get_git_diff (stub is_directory diff_fails) ready) =
     error_result ''Error retrieving git diff: Command failed: git diff''"
    using F [THEN conjunct1] fe by simp
  have F2: "fst (generate_commit_prompt (stub is_directory diff_fails) (Some ''api'') ready) =
     error_result ''Error retrieving git diff: Command failed: git diff''"
    using F [THEN conjunct2] fe by simp
  have ca: "run_exec (stub is_directory clean_repo) ''git diff --staged'' ''/repo'' ready =
      (Inr none, s1)"
    by (simp add: run_exec_def stub_def clean_repo_def ready_def s1_def none_def)
  have cb: "run_exec (stub is_directory clean_repo) ''git diff'' ''/repo'' s1 = (Inr none, s2)"
    by (simp add: run_exec_def stub_def clean_repo_def ready_def s1_def s2_def none_def)
  have cc: "run_exec (stub is_directory clean_repo)
      ''git ls-files --others --exclude-standard'' ''/repo'' s2 = (Inr none, s3)"
    by (simp add: run_exec_def stub_def clean_repo_def ready_def s2_def s3_def none_def)
  have ch: "\<not> snd (diff_sections (stdout none) (stdout none) (stdout none))"
    by (simp add: diff_sections_def untrackedFiles_of_def Let_def none_def string_eval)
  have E: "get_git_diff (stub is_directory clean_repo) ready =
       (text_result ''No changes detected'', s3) \<and>
     generate_commit_prompt (stub is_directory clean_repo) (Some ''api'') ready =
       (text_result ''No changes detected to generate a commit message prompt for.'', s3)"
    using diff_result_classification_unambiguous [OF 1 2 3 ca cb cc, of "Some ''api''"] ch by blast
  have E1: "fst (get_git_diff (stub is_directory clean_repo) ready) =
     text_result ''No changes detected''"
    using E [THEN conjunct1] by simp
  have E2: "fst (generate_commit_prompt (stub is_directory clean_repo) (Some ''api'') ready) =
     text_result ''No changes detected to generate a commit message prompt for.''"
    using E [THEN conjunct2] by simp
  show ?thesis using U1 U2 F1 F2 E1 E2 by (intro conjI)
qed

section \<open>Properties of the tools\<close>

lemma join_Cons: "join sep (l # ls) = l @ (if ls = [] then [] else sep @ join sep ls)"
  by (cases ls) simp_all

lemma join_split: "join [sep] (split sep s) = s"
proof (induction s)
  case Nil
  then show ?case by simp
next
  case (Cons c cs)
  obtain l ls where sp: "split sep cs = l # ls" using split_not_Nil [of sep cs] by (cases "split sep cs") auto
  show ?case using Cons sp by (auto simp: join_Cons)
qed

lemma split_first: "split sep s ! 0 = takeWhile (\<lambda>c. c \<noteq> sep) s"
proof (induction s)
  case Nil
  then show ?case by simp
next
  case (Cons c cs)
  obtain l ls where sp: "split sep cs = l # ls" using split_not_Nil [of sep cs] by (cases "split sep cs") auto
  show ?case using Cons sp by auto
qed

lemma split_single_iff: "drop 1 (split sep s) = [] \<longleftrightarrow> sep \<notin> set s"
proof (induction s)
  case Nil
  then show ?case by simp
next
  case (Cons c cs)
  obtain l ls where sp: "split sep cs = l # ls" using split_not_Nil [of sep cs] by (cases "split sep cs") auto
  show ?case using Cons sp by auto
qed

lemma subject_body:
  "trim message = commit_subject message @
     (if CHR 0x0A \<in> set (trim message) then ''\<newline>'' @ commit_body message else [])"
  "CHR 0x0A \<notin> set (commit_subject message)"
  "CHR 0x0A \<notin> set (trim message) \<Longrightarrow> commit_body message = []"
proof -
  obtain l ls where sp: "messageLines message = l # ls"
    using split_not_Nil [of "CHR 0x0A" "trim message"] by (cases "messageLines message") (auto simp: messageLines_def)
  have d: "ls = [] \<longleftrightarrow> CHR 0x0A \<notin> set (trim message)"
    using split_single_iff [of "CHR 0x0A" "trim message"] sp by (simp add: messageLines_def)
  have j: "join ''\<newline>'' (messageLines message) = trim message"
    using join_split [of "CHR 0x0A" "trim message"] by (simp add: messageLines_def)
  have sb: "commit_subject message = l" "commit_body message = join ''\<newline>'' ls"
    using sp by (simp_all add: commit_subject_def commit_body_def)
  show "trim message = commit_subject message @
     (if CHR 0x0A \<in> set (trim message) then ''\<newline>'' @ commit_body message else [])"
  proof (cases "ls = []")
    case True
    then have "join ''\<newline>'' (messageLines message) = l" using sp by simp
    then have "trim message = l" using j by simp
    then show ?thesis using True d sb by simp
  next
    case False
    then have "join ''\<newline>'' (messageLines message) = l @ ''\<newline>'' @ join ''\<newline>'' ls"
      using sp by (simp add: join_Cons)
    then have "trim message = l @ ''\<newline>'' @ join ''\<newline>'' ls" using j by simp
    moreover have "CHR 0x0A \<in> set (trim message)" using False d by simp
    ultimately show ?thesis unfolding sb by (simp only: if_True)
  qed
  show "CHR 0x0A \<notin> set (commit_subject message)"
    using split_first [of "CHR 0x0A" "trim message"]
    by (auto simp: commit_subject_def messageLines_def dest: set_takeWhileD)
  show "CHR 0x0A \<notin> set (trim message) \<Longrightarrow> commit_body message = []"
    using sp d by (simp add: commit_body_def)
qed

lemma gate_get_git_diff: "gate_closed (state s) \<Longrightarrow> get_git_diff C s = (not_initialized, s)"
  by (auto simp: gate_closed_def get_git_diff_def split: option.splits)

lemma gate_generate: "gate_closed (state s) \<Longrightarrow> generate_commit_prompt C scope s = (not_initialized, s)"
  by (auto simp: gate_closed_def generate_commit_prompt_def split: option.splits)

lemma gate_create: "gate_closed (state s) \<Longrightarrow> create_commit C message addAll validate s = (not_initialized, s)"
  by (auto simp: gate_closed_def create_commit_def split: option.splits)

lemma not_initialized_text:
  "isError not_initialized = Some True \<and>
   (\<exists>t. content not_initialized = [Text t] \<and> includes_str t ''initialize-project'')"
  by (simp add: not_initialized_def error_result_def startsWith_def)

text \<open>
  Claim C1. When the project path is \<open>null\<close> (or empty) or the repository flag is not set,
  each of \<open>get-git-diff\<close>, \<open>generate-commit-prompt\<close> and \<open>create-commit\<close> returns the error
  result that tells the caller to use \<open>initialize-project\<close>, and leaves the system as it was:
  no call of \<open>fs.stat\<close> or \<open>exec\<close> is recorded, and the world is unchanged.
\<close>

theorem gated_tools_require_initialization:
  assumes "gate_closed (state s)"
  shows "get_git_diff C s = (not_initialized, s) \<and>
         generate_commit_prompt C scope s = (not_initialized, s) \<and>
         create_commit C message addAll validate s = (not_initialized, s) \<and>
         isError not_initialized = Some True \<and>
         (\<exists>t. content not_initialized = [Text t] \<and> includes_str t ''initialize-project'')"
  using gate_get_git_diff [OF assms] gate_generate [OF assms] gate_create [OF assms]
    not_initialized_text by simp

text \<open>The theorem on the system at its start.\<close>

theorem gated_tools_require_initialization_witness:
  "gate_closed (state fresh) \<and>
   get_git_diff (stub is_directory untracked_only) fresh = (not_initialized, fresh) \<and>
   generate_commit_prompt (stub is_directory untracked_only) (Some ''api'') fresh = (not_initialized, fresh) \<and>
   create_commit (stub is_directory untracked_only) ''feat: add parser'' True True fresh =
     (not_initialized, fresh) \<and>
   calls fresh = [] \<and> world fresh = []"
proof -
  have g: "gate_closed (state fresh)" by (simp add: gate_closed_def fresh_def initial_state_def)
  have e: "calls fresh = [] \<and> world fresh = []" by (simp add: fresh_def)
  show ?thesis
    using g e gated_tools_require_initialization [OF g, of "stub is_directory untracked_only" "Some ''api''" "''feat: add parser''" True True]
    by blast
qed

lemma error_result_isError: "isError (error_result t) = Some True"
  by (simp add: error_result_def)

lemma init_success:
  assumes "path_resolve C path = Inr r" and "fs_stat C r (world s) = Inr True"
    and "\<not> isl (fst (execPromise C ''git rev-parse --is-inside-work-tree'' r (world s)))"
  shows "fst (initialize_project C path s) =
           text_result (''Successfully initialized git project at: '' @ r) \<and>
         state (snd (initialize_project C path s)) = \<lparr>projectPath = Some r, isValidGitRepo = True\<rparr>"
proof -
  obtain out w where e: "execPromise C ''git rev-parse --is-inside-work-tree'' r (world s) = (Inr out, w)"
  proof (cases "execPromise C ''git rev-parse --is-inside-work-tree'' r (world s)")
    case (Pair a w)
    then show ?thesis using assms(3) that by (cases a) auto
  qed
  show ?thesis
    using assms(1,2) e
    by (simp add: initialize_project_def run_stat_def checkGitRepo_def run_exec_def
        initializeProject_def)
qed

lemma init_failure:
  assumes "\<not> checks_pass C path (world s)"
  shows "isError (fst (initialize_project C path s)) = Some True \<and>
         state (snd (initialize_project C path s)) = state s"
proof (cases "path_resolve C path")
  case (Inl e)
  then show ?thesis by (simp add: initialize_project_def error_result_isError)
next
  case (Inr r)
  show ?thesis
  proof (cases "fs_stat C r (world s)")
    case (Inl e)
    then show ?thesis using Inr
      by (simp add: initialize_project_def run_stat_def error_result_isError)
  next
    case st: (Inr isDir)
    show ?thesis
    proof (cases isDir)
      case False
      then show ?thesis using Inr st
        by (simp add: initialize_project_def run_stat_def error_result_isError)
    next
      case True
      then have "isl (fst (execPromise C ''git rev-parse --is-inside-work-tree'' r (world s)))"
        using assms Inr st by (simp add: checks_pass_def)
      then obtain e w where
        "execPromise C ''git rev-parse --is-inside-work-tree'' r (world s) = (Inl e, w)"
      proof (cases "execPromise C ''git rev-parse --is-inside-work-tree'' r (world s)")
        case (Pair a w)
        then show ?thesis using \<open>isl (fst (execPromise C ''git rev-parse --is-inside-work-tree'' r (world s)))\<close> that
          by (cases a) auto
      qed
      then show ?thesis using Inr st True
        by (simp add: initialize_project_def run_stat_def checkGitRepo_def run_exec_def
            error_result_isError)
    qed
  qed
qed

text \<open>
  Claim C5. When the path resolves, the resolved path is a directory and the probe succeeds,
  \<open>initialize-project\<close> succeeds and the state becomes the resolved path with the flag set,
  whatever the state was before. When one of the three checks fails, the tool returns an
  error and the state is the one before the call.
\<close>

theorem initialize_project_all_or_nothing:
  "(checks_pass C path (world s) \<longrightarrow>
      (\<exists>r. path_resolve C path = Inr r \<and>
         fst (initialize_project C path s) =
           text_result (''Successfully initialized git project at: '' @ r) \<and>
         state (snd (initialize_project C path s)) =
           \<lparr>projectPath = Some r, isValidGitRepo = True\<rparr>)) \<and>
   (\<not> checks_pass C path (world s) \<longrightarrow>
      isError (fst (initialize_project C path s)) = Some True \<and>
      state (snd (initialize_project C path s)) = state s)"
proof (intro conjI impI)
  assume "checks_pass C path (world s)"
  then obtain r where r: "path_resolve C path = Inr r" "fs_stat C r (world s) = Inr True"
    "\<not> isl (fst (execPromise C ''git rev-parse --is-inside-work-tree'' r (world s)))"
    by (auto simp: checks_pass_def split: sum.splits)
  show "\<exists>r. path_resolve C path = Inr r \<and>
         fst (initialize_project C path s) =
           text_result (''Successfully initialized git project at: '' @ r) \<and>
         state (snd (initialize_project C path s)) =
           \<lparr>projectPath = Some r, isValidGitRepo = True\<rparr>"
    using r(1) init_success [OF r] by blast
next
  assume "\<not> checks_pass C path (world s)"
  then show "isError (fst (initialize_project C path s)) = Some True"
    using init_failure by blast
next
  assume "\<not> checks_pass C path (world s)"
  then show "state (snd (initialize_project C path s)) = state s"
    using init_failure by blast
qed

text \<open>
  The theorem on a system that is already initialized at \<open>/repo\<close>: a successful call moves it to
  \<open>/srv/app\<close>; a call on a missing path and a call outside a work tree leave it at \<open>/repo\<close>.
\<close>

theorem initialize_project_all_or_nothing_witness:
  "checks_pass (stub is_directory untracked_only) ''/srv/app'' (world ready) \<and>
   state (snd (initialize_project (stub is_directory untracked_only) ''/srv/app'' ready)) =
     \<lparr>projectPath = Some ''/srv/app'', isValidGitRepo = True\<rparr> \<and>
   \<not> checks_pass (stub no_such_path untracked_only) ''/srv/app'' (world ready) \<and>
   \<not> checks_pass (stub is_directory not_a_repo) ''/srv/app'' (world ready) \<and>
   state (snd (initialize_project (stub no_such_path untracked_only) ''/srv/app'' ready)) = state ready \<and>
   state (snd (initialize_project (stub is_directory not_a_repo) ''/srv/app'' ready)) = state ready \<and>
   state ready = \<lparr>projectPath = Some ''/repo'', isValidGitRepo = True\<rparr>"
proof -
  have p: "checks_pass (stub is_directory untracked_only) ''/srv/app'' (world ready)"
    by (simp add: checks_pass_def stub_def is_directory_def untracked_only_def)
  have r: "path_resolve (stub is_directory untracked_only) ''/srv/app'' = Inr ''/srv/app''"
    by (simp add: stub_def)
  have n1: "\<not> checks_pass (stub no_such_path untracked_only) ''/srv/app'' (world ready)"
    by (simp add: checks_pass_def stub_def no_such_path_def)
  have n2: "\<not> checks_pass (stub is_directory not_a_repo) ''/srv/app'' (world ready)"
    by (simp add: checks_pass_def stub_def is_directory_def not_a_repo_def)
  have s: "state ready = \<lparr>projectPath = Some ''/repo'', isValidGitRepo = True\<rparr>"
    by (simp add: ready_def)
  have a: "state (snd (initialize_project (stub is_directory untracked_only) ''/srv/app'' ready)) =
     \<lparr>projectPath = Some ''/srv/app'', isValidGitRepo = True\<rparr>"
    using p r initialize_project_all_or_nothing [of "stub is_directory untracked_only" "''/srv/app''" ready] by auto
  have b: "state (snd (initialize_project (stub no_such_path untracked_only) ''/srv/app'' ready)) = state ready"
    using n1 initialize_project_all_or_nothing [of "stub no_such_path untracked_only" "''/srv/app''" ready] by blast
  have c: "state (snd (initialize_project (stub is_directory not_a_repo) ''/srv/app'' ready)) = state ready"
    using n2 initialize_project_all_or_nothing [of "stub is_directory not_a_repo" "''/srv/app''" ready] by blast
  show ?thesis using p a n1 n2 b c s by blast
qed

lemma validation_error_isError: "isError (validation_error message) = Some True"
  by (simp add: validation_error_def error_result_def)

text \<open>
  Claim C9. In an initialized system, \<open>create-commit\<close> with \<open>validate\<close> set and a message
  whose header is invalid returns the validation error and leaves the system as it was,
  whether \<open>addAll\<close> is set or not: neither \<open>git add\<close> nor \<open>git commit\<close> is called.
\<close>

theorem create_commit_validates_before_git:
  assumes "projectPath (state s) = Some dir" and "dir \<noteq> []" and "isValidGitRepo (state s)"
    and "\<not> isValid (validateConventionalCommitHeader message)"
  shows "create_commit C message addAll True s = (validation_error message, s) \<and>
         isError (validation_error message) = Some True"
  using assms validation_error_isError by (simp add: create_commit_def)

text \<open>The theorem on the message \<open>update stuff\<close> with \<open>addAll\<close> set.\<close>

theorem create_commit_validates_before_git_witness:
  "\<not> isValid (validateConventionalCommitHeader ''update stuff'') \<and>
   create_commit (stub is_directory untracked_only) ''update stuff'' True True ready =
     (validation_error ''update stuff'', ready) \<and>
   calls ready = [] \<and> world ready = []"
proof -
  have 1: "projectPath (state ready) = Some ''/repo''" by (simp add: ready_def)
  have 2: "''/repo'' \<noteq> []" by simp
  have 3: "isValidGitRepo (state ready)" by (simp add: ready_def)
  have 4: "\<not> isValid (validateConventionalCommitHeader ''update stuff'')"
    by (simp add: validator_eval)
  have 5: "calls ready = [] \<and> world ready = []" by (simp add: ready_def)
  show ?thesis
    using 4 5 create_commit_validates_before_git [OF 1 2 3 4, of "stub is_directory untracked_only" True] by blast
qed

lemma run_commit_calls:
  "calls (snd (run_commit C message addAll dir s)) = calls s @ [Exec (commitCommand message) dir]"
proof (cases "run_exec C (commitCommand message) dir s")
  case (Pair r s')
  then have "calls s' = calls s @ [Exec (commitCommand message) dir]"
    using run_exec_calls by blast
  then show ?thesis using Pair by (cases r) (simp_all add: run_commit_def)
qed

lemma create_commit_calls:
  assumes "projectPath (state s) = Some dir" and "dir \<noteq> []" and "isValidGitRepo (state s)"
    and "validate \<longrightarrow> isValid (validateConventionalCommitHeader message)"
  shows "calls (snd (create_commit C message addAll validate s)) =
      calls s @ (if addAll then [Exec ''git add -A'' dir] else []) @
      (if addAll \<and> isl (fst (execPromise C ''git add -A'' dir (world s))) then []
       else [Exec (commitCommand message) dir])"
proof (cases addAll)
  case False
  then have "create_commit C message addAll validate s = run_commit C message addAll dir s"
    using assms by (auto simp: create_commit_def)
  then show ?thesis using False run_commit_calls [of C message addAll dir s] by simp
next
  case True
  obtain r s1 where ex: "run_exec C ''git add -A'' dir s = (r, s1)"
    by (cases "run_exec C ''git add -A'' dir s")
  have c1: "calls s1 = calls s @ [Exec ''git add -A'' dir]" using run_exec_calls [OF ex] by simp
  have r: "fst (execPromise C ''git add -A'' dir (world s)) = r"
    using ex by (auto simp: run_exec_def split: prod.splits)
  show ?thesis
  proof (cases r)
    case (Inl e)
    then have "create_commit C message addAll validate s = (commit_error e addAll, s1)"
      using assms True ex by (auto simp: create_commit_def)
    moreover have "isl (fst (execPromise C ''git add -A'' dir (world s)))" using r Inl by simp
    ultimately show ?thesis using True c1 by simp
  next
    case (Inr out)
    then have "create_commit C message addAll validate s = run_commit C message addAll dir s1"
      using assms True ex by (auto simp: create_commit_def)
    moreover have "\<not> isl (fst (execPromise C ''git add -A'' dir (world s)))" using r Inr by simp
    ultimately show ?thesis using True c1 run_commit_calls [of C message addAll dir s1] by simp
  qed
qed

text \<open>
  Claim C8. The claim asks that the subject and the body reach the commit operation as two
  independent arguments, never joined into one shell string. The handler joins them: for an
  accepted message with the subject \<open>fix: parse $(id)\<close> and a body that holds \<open>$HOME\<close>
  between double quotes, the one call made is \<open>exec\<close> of a single shell command line, in
  which the subject and the body stand between double quotes, the double quotes of the
  body have a backslash put before them, and \<open>$(id)\<close> and \<open>$HOME\<close> are left as they were
  written.
\<close>

theorem create_commit_sends_one_shell_string:
  "create_commit (stub is_directory clean_repo)
       (''fix: parse $(id)\<newline>\<newline>see '' @ DQ @ ''$HOME'' @ DQ) False True ready =
     (text_result ''Successfully created commit:\<newline>\<newline>'',
      ready\<lparr>world :=
          [''git commit -m '' @ DQ @ ''fix: parse $(id)'' @ DQ @ '' -m '' @ DQ @
           ''\<newline>see '' @ [CHR 0x5C] @ DQ @ ''$HOME'' @ [CHR 0x5C] @ DQ @ DQ],
        calls :=
          [Exec (''git commit -m '' @ DQ @ ''fix: parse $(id)'' @ DQ @ '' -m '' @ DQ @
                 ''\<newline>see '' @ [CHR 0x5C] @ DQ @ ''$HOME'' @ [CHR 0x5C] @ DQ @ DQ) ''/repo'']\<rparr>)"
  by (simp add: create_commit_def run_commit_def run_exec_def stub_def ready_def
      clean_repo_def commitCommand_def commit_subject_def commit_body_def messageLines_def
      escapeQuotes_def DQ_def text_result_def validator_eval)

end
